theory Spec2Isabelle
  imports Complex_Main "HOL-Library.Sublist"
begin

section \<open>Write circuit breaker (server/middleware/db-health.ts)\<close>

text \<open>
  The module keeps three process-wide variables: \<open>databaseHealthy\<close> (initially true),
  \<open>lastCheckTime\<close> (initially 0) and \<open>consecutiveFailures\<close> (initially 0). They are the
  fields of the record below, passed explicitly. Times are milliseconds as given by
  \<open>Date.now()\<close>.
\<close>

record health =
  databaseHealthy :: bool
  lastCheckTime :: int
  consecutiveFailures :: nat

definition initialHealth :: health where
  "initialHealth = \<lparr>databaseHealthy = True, lastCheckTime = 0, consecutiveFailures = 0\<rparr>"

text \<open>
  \<open>checkDatabaseHealth\<close>: the first argument tells whether the probe query \<open>SELECT 1\<close>
  succeeded, the second is the clock when the \<open>finally\<close> block runs. The function never
  rejects: both outcomes are returned as a boolean.
\<close>

definition checkDatabaseHealth :: "bool \<Rightarrow> int \<Rightarrow> health \<Rightarrow> bool \<times> health" where
  "checkDatabaseHealth ok tdone h =
     (if ok then
        (True, h\<lparr>databaseHealthy := True, consecutiveFailures := 0, lastCheckTime := tdone\<rparr>)
      else
        (let failures = consecutiveFailures h + 1 in
         (False, h\<lparr>consecutiveFailures := failures,
                    databaseHealthy := (if failures \<ge> 3 then False else databaseHealthy h),
                    lastCheckTime := tdone\<rparr>)))"

text \<open>
  The middleware either calls \<open>next()\<close> or answers 503 with \<open>retry: true\<close>. Its arguments
  are the request method, the clock at the request, and the outcome and completion time
  of the on-demand probe (consulted only when the probe is actually run).
\<close>

datatype gate = Proceed | ServiceDegraded

definition databaseHealthMiddleware ::
  "string \<Rightarrow> int \<Rightarrow> bool \<times> int \<Rightarrow> health \<Rightarrow> gate \<times> health" where
  "databaseHealthMiddleware method tnow probe h =
     (let isReadOperation = (method = ''GET'');
          needsCheck = (\<not> isReadOperation \<and> tnow - lastCheckTime h > 30000)
      in if \<not> databaseHealthy h \<and> \<not> isReadOperation then
           (if needsCheck then
              (case checkDatabaseHealth (fst probe) (snd probe) h of
                 (isHealthy, h') \<Rightarrow> if isHealthy then (Proceed, h') else (ServiceDegraded, h'))
            else (ServiceDegraded, h))
         else (Proceed, h))"

text \<open>
  The health variables are written by \<open>checkDatabaseHealth\<close> only (the interval timer, the
  initial check and the middleware all go through it), so every state the process reaches
  is the result of a sequence of probes run from the initial state.
\<close>

fun runProbes :: "health \<Rightarrow> (bool \<times> int) list \<Rightarrow> health" where
  "runProbes h [] = h"
| "runProbes h (p # ps) = runProbes (snd (checkDatabaseHealth (fst p) (snd p) h)) ps"

text \<open>The number of failed probes since the last successful one (or since the start).\<close>

definition trailingFailures :: "(bool \<times> int) list \<Rightarrow> nat" where
  "trailingFailures ps = length (takeWhile (\<lambda>p. \<not> fst p) (rev ps))"

section \<open>Thrown values and the retry helper (server/db.ts, here src/unnamed/part_004)\<close>

text \<open>
  A value thrown in JavaScript is arbitrary (\<open>error: any\<close>). The code below only reads
  the properties \<open>code\<close> and \<open>message\<close> of what it catches, so a thrown value is either
  \<open>undefined\<close> or an object with an optional \<open>code\<close> and an optional \<open>message\<close>.
\<close>

datatype thrown = Undefined | Error "string option" "string option"

text \<open>Reading a property of \<open>undefined\<close> throws a TypeError, an object without \<open>code\<close>.\<close>

definition typeError :: thrown where
  "typeError = Error None (Some ''Cannot read properties of undefined'')"

definition connectionErrorCodes :: "string list" where
  "connectionErrorCodes =
     [''57P01'', ''57P02'', ''57P03'', ''08006'', ''08001'', ''08004'', ''XX000'']"

text \<open>\<open>String.prototype.includes\<close>: the second argument occurs somewhere in the first.\<close>

fun includes_str :: "string \<Rightarrow> string \<Rightarrow> bool" where
  "includes_str [] sub = (sub = [])"
| "includes_str (c # s) sub = (prefix sub (c # s) \<or> includes_str s sub)"

text \<open>
  \<open>isConnectionError\<close>: the disjunction is evaluated left to right, so \<open>error.message\<close> is
  only read when the code is not in the list; reading it on an object without a message
  throws.
\<close>

fun isConnectionError :: "thrown \<Rightarrow> thrown + bool" where
  "isConnectionError Undefined = Inl typeError"
| "isConnectionError (Error c m) =
     (if (case c of None \<Rightarrow> False | Some x \<Rightarrow> x \<in> set connectionErrorCodes) then Inr True
      else (case m of
              None \<Rightarrow> Inl typeError
            | Some s \<Rightarrow> Inr (includes_str s ''connection'' \<or> includes_str s ''timeout'')))"

section \<open>The store, the cache and the clock\<close>

text \<open>
  Modelled from the spec: the table schema (\<open>@shared/schema\<close>) is not among the sources.
  The rows below carry the columns the handlers read and write. Columns the handlers
  guard with \<open>x || default\<close> or \<open>x && ...\<close> are nullable and become options; a null
  \<open>isPublic\<close> is falsy and is the same as false here. \<open>postersForSale\<close> is the
  non-negative integer counter of the specification's Seller. Prices are rationals (see
  \<open>priceFloor\<close> below), the subscription end date and the purchase date are clock values in
  milliseconds.
\<close>

record image =
  id_image :: string
  userId :: string
  isPublic :: bool
  totalSupply :: "int option"
  soldCount :: "int option"
  pricePerUnit :: "rat option"
  editionPricingType :: "string option"
  name_image :: "string option"
  momentLink :: "string option"
  city_image :: "string option"
  supplyType :: "string option"

record user =
  email :: string
  userType :: "string option"
  subscriptionStatus :: "string option"
  subscriptionEndDate :: "int option"
  postersForSale :: int

record purchase =
  id_purchase :: int
  userEmail :: string
  imageId :: string
  editionNumber :: int
  purchaseDate :: int
  amountPaid :: rat

text \<open>
  An order row for fulfilment. The shipping fields are kept as the submitted object; the
  image URLs, the style caption and the creation timestamp of the source's row are left
  out, as no handler reads them back.
\<close>

record order =
  shipping :: "(string \<times> string) list"
  confirmationId :: string
  quantity :: int
  amount :: rat
  status :: string

text \<open>
  The values the query cache holds and hands out (it is untyped in the source):
  \<open>undefined\<close>, \<open>null\<close>, or a result of one of the cached queries.
\<close>

datatype "value" =
  VUndefined | VNull | VImage image | VPurchases "purchase list" | VUser user

record cacheEntry =
  expiry :: int
  stored :: "value"

text \<open>
  The write statements the handlers issue: \<open>UPDATE generated_images SET ... WHERE id = i\<close>,
  \<open>UPDATE users SET ... WHERE email = e\<close>, and the two inserts.
\<close>

datatype "write" =
    UpdateImages string "image \<Rightarrow> image"
  | UpdateUsers string "user \<Rightarrow> user"
  | InsertPurchase purchase
  | InsertOrder order

text \<open>
  The world a request runs in: the clock (milliseconds), the delays waited so far, the
  outcomes scheduled for the coming database statements (\<open>Some e\<close>: the statement fails
  with \<open>e\<close> and has no effect; \<open>None\<close>, or nothing scheduled: it succeeds), the committed
  tables, the statements buffered by the open transaction, the query cache, and the
  regular-expression engine used by pattern invalidation.
\<close>

record world =
  now :: int
  slept :: "int list"
  faults :: "thrown option list"
  generatedImages :: "image list"
  users :: "user list"
  posterPurchases :: "purchase list"
  orders :: "order list"
  txLog :: "write list"
  queryCache :: "string \<Rightarrow> cacheEntry option"
  regexTest :: "string \<Rightarrow> string \<Rightarrow> bool"

definition nextFault :: "world \<Rightarrow> thrown option \<times> world" where
  "nextFault w = (case faults w of [] \<Rightarrow> (None, w) | f # fs \<Rightarrow> (f, w\<lparr>faults := fs\<rparr>))"

text \<open>
  The effect of a write that the store accepts. An inserted purchase gets its serial id
  from the store. Whether the store accepts a write is not decided here: a statement
  the store refuses, for instance an insert that violates a uniqueness constraint of the
  purchases table on image and edition number (SQLSTATE 23505; the schema is not among
  the sources), is a failure delivered by the schedule of the world, like a lost
  connection.
\<close>

fun applyWrite :: "write \<Rightarrow> world \<Rightarrow> world" where
  "applyWrite (UpdateImages i f) w =
     w\<lparr>generatedImages := map (\<lambda>r. if id_image r = i then f r else r) (generatedImages w)\<rparr>"
| "applyWrite (UpdateUsers e f) w =
     w\<lparr>users := map (\<lambda>u. if email u = e then f u else u) (users w)\<rparr>"
| "applyWrite (InsertPurchase p) w =
     w\<lparr>posterPurchases := posterPurchases w
          @ [p\<lparr>id_purchase := int (length (posterPurchases w)) + 1\<rparr>]\<rparr>"
| "applyWrite (InsertOrder r) w = w\<lparr>orders := orders w @ [r]\<rparr>"

text \<open>
  A statement runs on one of two connections: \<open>db\<close>, the pool, where every statement is
  its own committed transaction, or \<open>tx\<close>, the connection of the open transaction, whose
  writes are buffered until commit and dropped on rollback.
\<close>

datatype conn = Db | Tx

text \<open>
  Running one statement: the scheduled outcome is consumed; a failing statement throws
  and changes nothing.
\<close>

definition statement :: "(world \<Rightarrow> 'a \<times> world) \<Rightarrow> world \<Rightarrow> (thrown + 'a) \<times> world" where
  "statement run w =
     (case nextFault w of
        (Some e, w') \<Rightarrow> (Inl e, w')
      | (None, w') \<Rightarrow> (case run w' of (r, w'') \<Rightarrow> (Inr r, w'')))"

definition execWrite :: "conn \<Rightarrow> write \<Rightarrow> world \<Rightarrow> (thrown + unit) \<times> world" where
  "execWrite c wr =
     statement (\<lambda>w. ((), (case c of Db \<Rightarrow> applyWrite wr w | Tx \<Rightarrow> w\<lparr>txLog := txLog w @ [wr]\<rparr>)))"

definition visible :: "conn \<Rightarrow> world \<Rightarrow> world" where
  "visible c w = (case c of Db \<Rightarrow> w | Tx \<Rightarrow> foldl (\<lambda>s wr. applyWrite wr s) w (txLog w))"

definition selectImages :: "conn \<Rightarrow> string \<Rightarrow> world \<Rightarrow> (thrown + image list) \<times> world" where
  "selectImages c i =
     statement (\<lambda>w. (filter (\<lambda>r. id_image r = i) (generatedImages (visible c w)), w))"

definition selectUsers :: "conn \<Rightarrow> string \<Rightarrow> world \<Rightarrow> (thrown + user list) \<times> world" where
  "selectUsers c e =
     statement (\<lambda>w. (filter (\<lambda>u. email u = e) (users (visible c w)), w))"

definition commit :: "world \<Rightarrow> world" where
  "commit w = (foldl (\<lambda>s wr. applyWrite wr s) w (txLog w))\<lparr>txLog := []\<rparr>"

definition rollback :: "world \<Rightarrow> world" where
  "rollback w = w\<lparr>txLog := []\<rparr>"

text \<open>
  \<open>db.transaction(body)\<close>: begin with nothing buffered, commit when the body returns, roll
  back when it throws.
\<close>

definition transaction ::
  "(world \<Rightarrow> (thrown + 'a) \<times> world) \<Rightarrow> world \<Rightarrow> (thrown + 'a) \<times> world" where
  "transaction body w =
     (case body (w\<lparr>txLog := []\<rparr>) of
        (Inr r, w') \<Rightarrow> (Inr r, commit w')
      | (Inl e, w') \<Rightarrow> (Inl e, rollback w'))"

subsection \<open>executeWithRetry\<close>

text \<open>Waiting \<open>ms\<close> milliseconds on the timer moves the clock and is logged.\<close>

definition sleep :: "int \<Rightarrow> world \<Rightarrow> world" where
  "sleep ms w = w\<lparr>now := now w + ms, slept := slept w @ [ms]\<rparr>"

text \<open>
  The \<open>for\<close> loop of \<open>executeWithRetry\<close>, with the loop variable \<open>attempt\<close> and the variable
  \<open>lastError\<close> as arguments. An exception raised by \<open>isConnectionError\<close> inside the
  \<open>catch\<close> block leaves the function.
\<close>

function executeWithRetry_loop ::
  "(world \<Rightarrow> (thrown + 'a) \<times> world) \<Rightarrow> int \<Rightarrow> int \<Rightarrow> thrown \<Rightarrow> world
     \<Rightarrow> (thrown + 'a) \<times> world" where
  "executeWithRetry_loop queryFn maxRetries attempt lastError w =
     (if attempt \<le> maxRetries then
        (case queryFn w of
           (Inr r, w') \<Rightarrow> (Inr r, w')
         | (Inl error, w') \<Rightarrow>
             (case isConnectionError error of
                Inl te \<Rightarrow> (Inl te, w')
              | Inr False \<Rightarrow> (Inl error, w')
              | Inr True \<Rightarrow>
                  executeWithRetry_loop queryFn maxRetries (attempt + 1) error
                    (sleep (100 * 2 ^ nat attempt) w')))
      else (Inl lastError, w))"
  by pat_completeness auto
termination
  by (relation "measure (\<lambda>(q, m, a, l, w). nat (m + 1 - a))") auto

definition executeWithRetry ::
  "(world \<Rightarrow> (thrown + 'a) \<times> world) \<Rightarrow> int \<Rightarrow> world \<Rightarrow> (thrown + 'a) \<times> world" where
  "executeWithRetry queryFn maxRetries w =
     executeWithRetry_loop queryFn maxRetries 1 Undefined w"

text \<open>
  The delays of \<open>n\<close> consecutive failed attempts, the first of them being attempt \<open>a\<close>, and
  the world after waiting a list of delays.
\<close>

definition backoff :: "nat \<Rightarrow> nat \<Rightarrow> int list" where
  "backoff a n = map (\<lambda>k. 100 * 2 ^ k) [a ..< a + n]"

definition waited :: "int list \<Rightarrow> world \<Rightarrow> world" where
  "waited ds w = w\<lparr>now := now w + sum_list ds, slept := slept w @ ds\<rparr>"

text \<open>
  Two errors of the PostgreSQL driver: a serialization failure (SQLSTATE 40001) and a
  connection failure (SQLSTATE 08006).
\<close>

definition serializationFailure :: thrown where
  "serializationFailure =
     Error (Some ''40001'') (Some ''could not serialize access due to concurrent update'')"

definition connectionFailure :: thrown where
  "connectionFailure =
     Error (Some ''08006'') (Some ''server closed the connection unexpectedly'')"

text \<open>The error of an insert refused by a uniqueness constraint (SQLSTATE 23505).\<close>

definition uniqueViolation :: thrown where
  "uniqueViolation =
     Error (Some ''23505'') (Some ''duplicate key value violates unique constraint'')"

subsection \<open>The query cache\<close>

text \<open>
  \<open>queryCache\<close> is a \<open>NodeCache\<close> (the library node-cache). \<open>get\<close> answers \<open>undefined\<close> for a
  missing key and for an entry whose expiry time (when not 0) lies before the clock,
  deleting the latter; for any other entry it answers the unwrapped value, and the
  library's \<open>_unwrap\<close> turns a stored \<open>undefined\<close> or \<open>null\<close> into \<open>null\<close>. \<open>set\<close> stores the
  value as it is given, with expiry \<open>now + ttl * 1000\<close>, or 0 (never) when \<open>ttl\<close> is 0.
\<close>

definition unwrap :: "value \<Rightarrow> value" where
  "unwrap x = (if x = VUndefined \<or> x = VNull then VNull else x)"

definition cacheDel :: "string \<Rightarrow> world \<Rightarrow> world" where
  "cacheDel key w = w\<lparr>queryCache := (queryCache w)(key := None)\<rparr>"

definition cacheGet :: "string \<Rightarrow> world \<Rightarrow> value \<times> world" where
  "cacheGet key w =
     (case queryCache w key of
        None \<Rightarrow> (VUndefined, w)
      | Some d \<Rightarrow>
          if expiry d \<noteq> 0 \<and> expiry d < now w then (VUndefined, cacheDel key w)
          else (unwrap (stored d), w))"

definition cacheSet :: "string \<Rightarrow> value \<Rightarrow> int \<Rightarrow> world \<Rightarrow> world" where
  "cacheSet key val ttl w =
     w\<lparr>queryCache := (queryCache w)
         (key \<mapsto> \<lparr>expiry = (if ttl = 0 then 0 else now w + ttl * 1000), stored = val\<rparr>)\<rparr>"

text \<open>
  \<open>cachedQuery\<close>. The test \<open>cached !== undefined\<close> succeeds for \<open>null\<close>. The parameter \<open>ttl\<close>
  has a default, so the branch for an undefined \<open>ttl\<close> is never taken.
  \<open>executeWithRetry\<close> is called with its default of 3 attempts.
\<close>

definition cachedQuery ::
  "string \<Rightarrow> (world \<Rightarrow> (thrown + value) \<times> world) \<Rightarrow> int \<Rightarrow> world
     \<Rightarrow> (thrown + value) \<times> world" where
  "cachedQuery cacheKey queryFn ttl w =
     (case cacheGet cacheKey w of
        (cached, w1) \<Rightarrow>
          if cached \<noteq> VUndefined then (Inr cached, w1)
          else (case executeWithRetry queryFn 3 w1 of
                  (Inl e, w2) \<Rightarrow> (Inl e, w2)
                | (Inr result, w2) \<Rightarrow> (Inr result, cacheSet cacheKey result ttl w2)))"

text \<open>\<open>keyPattern.replace('*', '.*')\<close> replaces the first star only.\<close>

fun replaceStar :: "string \<Rightarrow> string" where
  "replaceStar [] = []"
| "replaceStar (c # s) = (if c = CHR ''*'' then ''.*'' @ s else c # replaceStar s)"

definition invalidateCache :: "string \<Rightarrow> world \<Rightarrow> world" where
  "invalidateCache keyPattern w =
     (if includes_str keyPattern ''*'' then
        w\<lparr>queryCache :=
             (\<lambda>key. if regexTest w (replaceStar keyPattern) key then None else queryCache w key)\<rparr>
      else cacheDel keyPattern w)"

text \<open>Time passing between two requests.\<close>

definition elapse :: "int \<Rightarrow> world \<Rightarrow> world" where
  "elapse ms w = w\<lparr>now := now w + ms\<rparr>"

text \<open>
  Prices are JavaScript numbers, that is, IEEE doubles. A price is represented by the
  rational that the double is exactly, so that comparisons of prices are the
  comparisons of the doubles. The literal \<open>29.95\<close> of the source is the double nearest to
  29.95, which is the rational below (8430175552484147 / 2^48, a little less than
  2995 / 100).
\<close>

definition priceFloor :: rat where
  "priceFloor = 8430175552484147 / 281474976710656"

section \<open>Storage methods (server/storage.ts)\<close>

text \<open>The JavaScript idiom \<open>x || d\<close> on a nullable number: \<open>d\<close> replaces null and 0.\<close>

fun orElse :: "'a::zero option \<Rightarrow> 'a \<Rightarrow> 'a" where
  "orElse None d = d"
| "orElse (Some x) d = (if x = 0 then d else x)"

text \<open>
  \<open>getGeneratedImageById\<close>: the row is read through the cache under the key
  \<open>generated-image:<id>\<close> with a TTL of 60 seconds; \<open>result[0]\<close> of an empty result is
  \<open>undefined\<close>. Any exception is caught and \<open>undefined\<close> returned. \<open>imageQuery\<close> is the
  function handed to \<open>cachedQuery\<close>.
\<close>

definition imageQuery :: "string \<Rightarrow> world \<Rightarrow> (thrown + value) \<times> world" where
  "imageQuery i w =
     (case executeWithRetry (selectImages Db i) 3 w of
        (Inl e, w') \<Rightarrow> (Inl e, w')
      | (Inr result, w') \<Rightarrow> (Inr (case result of [] \<Rightarrow> VUndefined | r # rs \<Rightarrow> VImage r), w'))"

definition getGeneratedImageById :: "string \<Rightarrow> world \<Rightarrow> value \<times> world" where
  "getGeneratedImageById i w =
     (case cachedQuery (''generated-image:'' @ i) (imageQuery i) 60 w of
        (Inl e, w') \<Rightarrow> (VUndefined, w')
      | (Inr r, w') \<Rightarrow> (r, w'))"

text \<open>
  \<open>createPosterPurchase\<close> inserts through \<open>db\<close>, the pool, invalidates the purchase-list
  key of the image and returns the inserted row; an exception is rethrown.
\<close>

definition insertPurchase :: "purchase \<Rightarrow> world \<Rightarrow> (thrown + purchase) \<times> world" where
  "insertPurchase p =
     statement (\<lambda>w. let w' = applyWrite (InsertPurchase p) w in (last (posterPurchases w'), w'))"

definition createPosterPurchase :: "purchase \<Rightarrow> world \<Rightarrow> (thrown + purchase) \<times> world" where
  "createPosterPurchase p w =
     (case executeWithRetry (insertPurchase p) 3 w of
        (Inl e, w') \<Rightarrow> (Inl e, w')
      | (Inr row, w') \<Rightarrow> (Inr row, invalidateCache (''poster-purchases:'' @ imageId p) w'))"

definition createOrder :: "order \<Rightarrow> world \<Rightarrow> (thrown + unit) \<times> world" where
  "createOrder r w =
     (case executeWithRetry (execWrite Db (InsertOrder r)) 3 w of
        (Inl e, w') \<Rightarrow> (Inl e, w')
      | (Inr u, w') \<Rightarrow> (Inr (), invalidateCache ''orders:list'' w'))"

text \<open>
  \<open>checkImageAvailability\<close> returns the pair \<open>(available, remainingSupply)\<close>; it reads the
  image through \<open>getGeneratedImageById\<close>, that is, through the cache.
\<close>

definition checkImageAvailability :: "string \<Rightarrow> world \<Rightarrow> (bool \<times> int) \<times> world" where
  "checkImageAvailability i w =
     (case getGeneratedImageById i w of
        (VImage img, w') \<Rightarrow>
          if supplyType img = Some ''unlimited'' then ((True, - 1), w')
          else
            (let totalSupply' = orElse (totalSupply img) 0;
                 soldCount' = orElse (soldCount img) 0;
                 remainingSupply = totalSupply' - soldCount'
             in ((remainingSupply > 0, max 0 remainingSupply), w'))
      | (other, w') \<Rightarrow> ((False, 0), w'))"

section \<open>Catalogue handlers (server/catalogue-routes.ts)\<close>

text \<open>
  What a handler sends: an error status with its message, the 403 of the quota check
  (which carries \<open>needsSubscription: true\<close>), the plain success of the publish handler,
  the purchase confirmation, or the availability of an image (\<open>totalSupply\<close>, \<open>soldCount\<close>,
  \<open>remainingSupply\<close>, \<open>available\<close>, \<open>pricePerUnit\<close> and \<open>nextEditionNumber\<close>; the descriptive
  fields and the image URLs of that answer are left out).
\<close>

datatype response =
    ErrorJson nat string
  | NeedsSubscription string
  | SuccessJson
  | PurchaseJson string int "int option" rat int
  | AvailabilityJson int int int bool rat "int option"

definition SoldOut :: response where
  "SoldOut = ErrorJson 500 ''This limited edition is sold out''"

definition QuotaExceeded :: response where
  "QuotaExceeded = NeedsSubscription
     ''You have already used both your free poster sales. Upgrade to Artistic Collective membership for unlimited poster sales.''"

definition InvalidSupplyChange :: response where
  "InvalidSupplyChange =
     ErrorJson 400 ''Cannot change supply or pricing settings after sales have been made''"

text \<open>
  \<open>requireAuthentication\<close>: the argument is the e-mail address decoded from the token
  (\<open>None\<close> when the cookie is missing or the token invalid; the two 401 answers are not
  told apart). The user row is read from the table on every request.
\<close>

definition requireAuthentication ::
  "string option \<Rightarrow> world \<Rightarrow> (response + user) \<times> world" where
  "requireAuthentication decoded w =
     (case decoded of
        None \<Rightarrow> (Inl (ErrorJson 401 ''Authentication required''), w)
      | Some e \<Rightarrow>
          (case selectUsers Db e w of
             (Inl x, w') \<Rightarrow> (Inl (ErrorJson 500 ''Authorization failed''), w')
           | (Inr [], w') \<Rightarrow> (Inl (ErrorJson 401 ''User not found''), w')
           | (Inr (u # us), w') \<Rightarrow> (Inr u, w')))"

definition isSubscribed :: "user \<Rightarrow> int \<Rightarrow> bool" where
  "isSubscribed u tnow =
     (userType u = Some ''artistic_collective'' \<and> subscriptionStatus u = Some ''active''
      \<and> (case subscriptionEndDate u of None \<Rightarrow> True | Some d \<Rightarrow> d > tnow))"

subsection \<open>PATCH /images/:id/public\<close>

text \<open>
  The request body. \<open>None\<close> stands for a field that is absent; \<open>isPublic_body\<close> is \<open>None\<close>
  also when the field is not a boolean.
\<close>

record publicBody =
  isPublic_body :: "bool option"
  totalSupply_body :: "int option"
  pricePerUnit_body :: "rat option"
  name_body :: "string option"
  momentLink_body :: "string option option"
  city_body :: "string option"

text \<open>\<open>a !== b\<close> between a body field and a column: an absent field differs from everything.\<close>

fun differs :: "'a option \<Rightarrow> 'a option \<Rightarrow> bool" where
  "differs (Some a) (Some b) = (a \<noteq> b)"
| "differs a b = True"

text \<open>The object \<open>updateData\<close>, as the change it makes to the row.\<close>

definition updateData :: "publicBody \<Rightarrow> bool \<Rightarrow> image \<Rightarrow> image" where
  "updateData body isPublic' r =
     (let r1 = r\<lparr>isPublic := isPublic'\<rparr>;
          r2 = (case name_body body of None \<Rightarrow> r1 | Some n \<Rightarrow> r1\<lparr>name_image := Some n\<rparr>);
          r3 = (case momentLink_body body of None \<Rightarrow> r2 | Some l \<Rightarrow> r2\<lparr>momentLink := l\<rparr>);
          r4 = (case city_body body of None \<Rightarrow> r3 | Some c \<Rightarrow> r3\<lparr>city_image := Some c\<rparr>)
      in if isPublic' then
           r4\<lparr>editionPricingType := Some ''flat'', totalSupply := totalSupply_body body,
              pricePerUnit := pricePerUnit_body body\<rparr>
         else r4)"

text \<open>
  The body of the transaction: the image update, then, for a seller who is not
  subscribed, the counter update on a change of the publish flag. The result tells
  whether the counter was touched.
\<close>

definition setPublicTx ::
  "user \<Rightarrow> string \<Rightarrow> publicBody \<Rightarrow> bool \<Rightarrow> image \<Rightarrow> world \<Rightarrow> (thrown + bool) \<times> world" where
  "setPublicTx usr i body isPublic' img w =
     (case execWrite Tx (UpdateImages i (updateData body isPublic')) w of
        (Inl e, w1) \<Rightarrow> (Inl e, w1)
      | (Inr u, w1) \<Rightarrow>
          if \<not> isSubscribed usr (now w1) then
            (if isPublic' \<and> \<not> isPublic img then
               (case execWrite Tx
                       (UpdateUsers (email usr) (\<lambda>r. r\<lparr>postersForSale := postersForSale r + 1\<rparr>))
                       w1 of
                  (Inl e, w2) \<Rightarrow> (Inl e, w2)
                | (Inr u, w2) \<Rightarrow> (Inr True, w2))
             else if \<not> isPublic' \<and> isPublic img then
               (case execWrite Tx
                       (UpdateUsers (email usr)
                          (\<lambda>r. r\<lparr>postersForSale := max 0 (postersForSale r - 1)\<rparr>))
                       w1 of
                  (Inl e, w2) \<Rightarrow> (Inl e, w2)
                | (Inr u, w2) \<Rightarrow> (Inr True, w2))
             else (Inr False, w1))
          else (Inr False, w1))"

text \<open>
  The handler, after authentication. The tests \<open>!totalSupply\<close> and \<open>!pricePerUnit\<close> hold
  for an absent field and for 0; \<open>user.postersForSale || 0\<close> is the counter itself. Every
  exception ends in the 500 response of the outer \<open>catch\<close>.
\<close>

definition setImagePublic :: "user \<Rightarrow> string \<Rightarrow> publicBody \<Rightarrow> world \<Rightarrow> response \<times> world" where
  "setImagePublic usr i body w =
     (case isPublic_body body of
        None \<Rightarrow> (ErrorJson 400 ''Invalid request body, isPublic must be a boolean'', w)
      | Some isPublic' \<Rightarrow>
          if isPublic' \<and> (case totalSupply_body body of
                              None \<Rightarrow> True | Some n \<Rightarrow> n = 0 \<or> n < 1 \<or> n > 1000)
          then (ErrorJson 400 ''Posters must have totalSupply between 1 and 1000'', w)
          else if isPublic' \<and> (case pricePerUnit_body body of
                                   None \<Rightarrow> True | Some x \<Rightarrow> x = 0 \<or> x < priceFloor)
          then (ErrorJson 400 ''Posters must have pricePerUnit of at least 29.95 CHF'', w)
          else
            (case selectImages Db i w of
               (Inl e, w1) \<Rightarrow> (ErrorJson 500 ''Failed to update image public status'', w1)
             | (Inr [], w1) \<Rightarrow> (ErrorJson 404 ''Image not found'', w1)
             | (Inr (img # rest), w1) \<Rightarrow>
                 if userId img \<noteq> email usr
                 then (ErrorJson 403 ''You can only modify your own images'', w1)
                 else if isPublic' \<and> \<not> isSubscribed usr (now w1) \<and> postersForSale usr \<ge> 2
                 then (QuotaExceeded, w1)
                 else if isPublic img
                         \<and> (case soldCount img of None \<Rightarrow> False | Some n \<Rightarrow> n \<noteq> 0 \<and> n > 0)
                         \<and> (differs (totalSupply_body body) (totalSupply img)
                              \<or> differs (pricePerUnit_body body) (pricePerUnit img))
                 then (InvalidSupplyChange, w1)
                 else
                   (case transaction (setPublicTx usr i body isPublic' img) w1 of
                      (Inl e, w2) \<Rightarrow> (ErrorJson 500 ''Failed to update image public status'', w2)
                    | (Inr posterCountChanged, w2) \<Rightarrow>
                        (SuccessJson,
                         (if posterCountChanged then invalidateCache (''user:'' @ email usr) w2
                          else w2)))))"

text \<open>The route: the authentication middleware, then the handler.\<close>

definition patchImagePublic ::
  "string option \<Rightarrow> string \<Rightarrow> publicBody \<Rightarrow> world \<Rightarrow> response \<times> world" where
  "patchImagePublic decoded i body w =
     (case requireAuthentication decoded w of
        (Inl r, w') \<Rightarrow> (r, w')
      | (Inr usr, w') \<Rightarrow> setImagePublic usr i body w')"

subsection \<open>POST /purchase-poster\<close>

record purchaseBody =
  imageId_body :: "string option"
  shippingData :: "(string \<times> string) list option"

definition requiredFields :: "string list" where
  "requiredFields = [''firstName'', ''lastName'', ''email'', ''address'', ''city'', ''state'',
     ''zipCode'', ''country'']"

text \<open>
  The body of the transaction. The image is read on \<open>tx\<close>; the purchase row is inserted by
  \<open>storage.createPosterPurchase\<close> and the order row by \<open>storage.createOrder\<close>, both of which
  use \<open>db\<close>; the sold count is written on \<open>tx\<close>. \<open>confirmationId\<close> is the random
  confirmation string. The id of the inserted purchase is assigned by the store.
\<close>

definition purchaseTx ::
  "user \<Rightarrow> string \<Rightarrow> (string \<times> string) list \<Rightarrow> string \<Rightarrow> world
     \<Rightarrow> (thrown + response) \<times> world" where
  "purchaseTx usr iid sd confirmation w =
     (case selectImages Tx iid w of
        (Inl e, w1) \<Rightarrow> (Inl e, w1)
      | (Inr [], w1) \<Rightarrow> (Inl (Error None (Some ''Image not found'')), w1)
      | (Inr (img # rest), w1) \<Rightarrow>
          if \<not> isPublic img
          then (Inl (Error None (Some ''Image is not available for purchase'')), w1)
          else
            (let soldCount' = orElse (soldCount img) 0;
                 totalSupply' = orElse (totalSupply img) 10
             in if soldCount' \<ge> totalSupply'
                then (Inl (Error None (Some ''This limited edition is sold out'')), w1)
                else
                  (let editionNumber' = orElse (soldCount img) 0 + 1;
                       pricePerUnit' = orElse (pricePerUnit img) priceFloor
                   in case createPosterPurchase
                             \<lparr>id_purchase = 0, userEmail = email usr, imageId = iid,
                              editionNumber = editionNumber', purchaseDate = now w1,
                              amountPaid = pricePerUnit'\<rparr> w1 of
                        (Inl e, w2) \<Rightarrow> (Inl e, w2)
                      | (Inr posterPurchase, w2) \<Rightarrow>
                          (case execWrite Tx
                                  (UpdateImages iid (\<lambda>r. r\<lparr>soldCount := Some editionNumber'\<rparr>))
                                  w2 of
                             (Inl e, w3) \<Rightarrow> (Inl e, w3)
                           | (Inr u, w3) \<Rightarrow>
                               (case createOrder
                                       \<lparr>shipping = List.map_filter
                                            (\<lambda>f. map_option (Pair f) (map_of sd f)) requiredFields,
                                        confirmationId = confirmation, quantity = 1,
                                        amount = pricePerUnit', status = ''paid''\<rparr> w3 of
                                  (Inl e, w4) \<Rightarrow> (Inl e, w4)
                                | (Inr u, w4) \<Rightarrow>
                                    (Inr (PurchaseJson confirmation editionNumber'
                                            (totalSupply img) pricePerUnit'
                                            (id_purchase posterPurchase)), w4))))))"

definition purchasePoster ::
  "user \<Rightarrow> purchaseBody \<Rightarrow> string \<Rightarrow> world \<Rightarrow> response \<times> world" where
  "purchasePoster usr body confirmation w =
     (case (imageId_body body, shippingData body) of
        (Some iid, Some sd) \<Rightarrow>
          if iid = [] then (ErrorJson 400 ''Image ID and shipping data are required'', w)
          else
            (case find (\<lambda>f. case map_of sd f of None \<Rightarrow> True | Some x \<Rightarrow> x = [])
                    requiredFields of
               Some field \<Rightarrow> (ErrorJson 400 (''Missing required field: '' @ field), w)
             | None \<Rightarrow>
                 (case transaction (purchaseTx usr iid sd confirmation) w of
                    (Inr r, w') \<Rightarrow> (r, w')
                  | (Inl e, w') \<Rightarrow>
                      (ErrorJson 500
                         (case e of Error c (Some m) \<Rightarrow> m | other \<Rightarrow> ''Failed to process purchase''),
                       w')))
      | other \<Rightarrow> (ErrorJson 400 ''Image ID and shipping data are required'', w))"

subsection \<open>GET /images/:id/availability\<close>


definition postPurchasePoster ::
  "string option \<Rightarrow> purchaseBody \<Rightarrow> string \<Rightarrow> world \<Rightarrow> response \<times> world" where
  "postPurchasePoster decoded body confirmation w =
     (case requireAuthentication decoded w of
        (Inl r, w') \<Rightarrow> (r, w')
      | (Inr usr, w') \<Rightarrow> purchasePoster usr body confirmation w')"

section \<open>Sequences of publish and unpublish requests\<close>

text \<open>
  A call is the authenticated e-mail address, the image id, the request body and the time
  that passed since the previous call. \<open>runCalls\<close> sends the calls to the route one after
  the other.
\<close>

type_synonym call = "string \<times> string \<times> publicBody \<times> int"

fun runCalls :: "world \<Rightarrow> call list \<Rightarrow> world" where
  "runCalls w [] = w"
| "runCalls w ((e, i, body, dt) # cs) =
     runCalls (snd (patchImagePublic (Some e) i body (elapse dt w))) cs"

text \<open>The rows of the seller's images that are published now.\<close>

definition published :: "string \<Rightarrow> world \<Rightarrow> image list" where
  "published e w = filter (\<lambda>r. userId r = e \<and> isPublic r) (generatedImages w)"

text \<open>
  The specification's wording of the quota invariant counts the seller's published
  artifacts "that were published while non-exempt". The code keeps no such record, so
  it is kept here, beside the run: \<open>nonExemptPublications\<close> follows the calls and lists the
  ids of the images whose current publication was made while the caller was not exempt;
  \<open>quotaCount\<close> is the number the specification asks the counter to equal.
\<close>

definition exemptAt :: "string \<Rightarrow> world \<Rightarrow> bool" where
  "exemptAt e w =
     (case filter (\<lambda>u. email u = e) (users w) of
        [] \<Rightarrow> False
      | u # us \<Rightarrow> isSubscribed u (now w))"

definition publicIds :: "world \<Rightarrow> string list" where
  "publicIds w = map id_image (filter isPublic (generatedImages w))"

fun nonExemptPublications :: "world \<Rightarrow> string list \<Rightarrow> call list \<Rightarrow> string list" where
  "nonExemptPublications w g [] = g"
| "nonExemptPublications w g ((e, i, body, dt) # cs) =
     (let w0 = elapse dt w;
          w1 = snd (patchImagePublic (Some e) i body w0);
          was = (i \<in> set (publicIds w0));
          is' = (i \<in> set (publicIds w1));
          g' = (if \<not> was \<and> is' then (if exemptAt e w0 then removeAll i g else i # removeAll i g)
                else if was \<and> \<not> is' then removeAll i g
                else g)
      in nonExemptPublications w1 g' cs)"

definition quotaCount :: "string \<Rightarrow> world \<Rightarrow> string list \<Rightarrow> int" where
  "quotaCount e w g =
     int (length (filter (\<lambda>r. userId r = e \<and> isPublic r \<and> id_image r \<in> set g)
                    (generatedImages w)))"

text \<open>
  For the proofs: the invariant of the counter of seller \<open>e\<close>, worlds that agree on the
  tables and the clock, and the change the transaction makes to the users table.
\<close>

definition quotaInv :: "string \<Rightarrow> world \<Rightarrow> bool" where
  "quotaInv e w \<longleftrightarrow>
     distinct (map id_image (generatedImages w))
     \<and> (\<forall>u \<in> set (users w). email u = e \<longrightarrow>
           \<not> isSubscribed u (now w) \<and> postersForSale u = int (length (published e w)))"

definition sameTables :: "world \<Rightarrow> world \<Rightarrow> bool" where
  "sameTables w' w \<longleftrightarrow>
     generatedImages w' = generatedImages w \<and> users w' = users w \<and> now w' = now w"

definition counterChange :: "user \<Rightarrow> bool \<Rightarrow> image \<Rightarrow> int \<Rightarrow> user list \<Rightarrow> user list" where
  "counterChange usr p img t us =
     (if isSubscribed usr t then us
      else if p \<and> \<not> isPublic img then
        map (\<lambda>u. if email u = email usr then u\<lparr>postersForSale := postersForSale u + 1\<rparr> else u) us
      else if \<not> p \<and> isPublic img then
        map (\<lambda>u. if email u = email usr
                 then u\<lparr>postersForSale := max 0 (postersForSale u - 1)\<rparr> else u) us
      else us)"

section \<open>Sample data\<close>

text \<open>A world with empty tables and an empty cache, at clock 0.\<close>

definition emptyWorld :: world where
  "emptyWorld = \<lparr>now = 0, slept = [], faults = [], generatedImages = [], users = [],
     posterPurchases = [], orders = [], txLog = [], queryCache = (\<lambda>key. None),
     regexTest = (\<lambda>pat key. False)\<rparr>"

text \<open>A poster with one edition for sale, a buyer, and the buyer's order.\<close>

definition posterA :: image where
  "posterA = \<lparr>id_image = ''poster-a'', userId = ''seller@example.org'', isPublic = True,
     totalSupply = Some 1, soldCount = Some 0, pricePerUnit = Some 30,
     editionPricingType = Some ''flat'', name_image = None, momentLink = None,
     city_image = None, supplyType = None\<rparr>"

definition buyerB :: user where
  "buyerB = \<lparr>email = ''buyer@example.org'', userType = None, subscriptionStatus = None,
     subscriptionEndDate = None, postersForSale = 0\<rparr>"

definition orderBody :: purchaseBody where
  "orderBody = \<lparr>imageId_body = Some ''poster-a'',
     shippingData = Some [(''firstName'', ''B''), (''lastName'', ''Buyer''),
       (''email'', ''buyer@example.org''), (''address'', ''1 Main St''), (''city'', ''Bern''),
       (''state'', ''BE''), (''zipCode'', ''3000''), (''country'', ''CH'')]\<rparr>"

definition shopWorld :: world where
  "shopWorld = emptyWorld\<lparr>generatedImages := [posterA], users := [buyerB]\<rparr>"

text \<open>
  The world after a purchase whose third statement, the update of the sold count on
  \<open>tx\<close>, failed because the connection was lost.
\<close>

definition afterFailedPurchase :: world where
  "afterFailedPurchase =
     snd (purchasePoster buyerB orderBody ''LED-123456''
            (shopWorld\<lparr>faults := [None, None, Some connectionFailure]\<rparr>))"


text \<open>Request bodies of the publish handler, an unpublished image and a published one.\<close>

definition publishBody :: "int \<Rightarrow> rat \<Rightarrow> publicBody" where
  "publishBody n p = \<lparr>isPublic_body = Some True, totalSupply_body = Some n,
     pricePerUnit_body = Some p, name_body = None, momentLink_body = None, city_body = None\<rparr>"

definition unpublishBody :: "int option \<Rightarrow> rat option \<Rightarrow> publicBody" where
  "unpublishBody n p = \<lparr>isPublic_body = Some False, totalSupply_body = n,
     pricePerUnit_body = p, name_body = None, momentLink_body = None, city_body = None\<rparr>"

definition draft :: "string \<Rightarrow> string \<Rightarrow> image" where
  "draft i e = \<lparr>id_image = i, userId = e, isPublic = False, totalSupply = None,
     soldCount = None, pricePerUnit = None, editionPricingType = None, name_image = None,
     momentLink = None, city_image = None, supplyType = None\<rparr>"

definition listed :: "string \<Rightarrow> string \<Rightarrow> int \<Rightarrow> rat \<Rightarrow> image" where
  "listed i e n p = (draft i e)\<lparr>isPublic := True, totalSupply := Some n, soldCount := Some 0,
     pricePerUnit := Some p, editionPricingType := Some ''flat''\<rparr>"

text \<open>
  A seller without subscription and three drafts; the same seller with two posters on
  sale; the scenario of the specification: two publications, a third one refused, one
  poster withdrawn, the third publication repeated.
\<close>

definition maker :: user where
  "maker = \<lparr>email = ''maker@example.org'', userType = None, subscriptionStatus = None,
     subscriptionEndDate = None, postersForSale = 0\<rparr>"

definition workshopWorld :: world where
  "workshopWorld = emptyWorld\<lparr>generatedImages :=
       [draft ''m1'' ''maker@example.org'', draft ''m2'' ''maker@example.org'',
        draft ''m3'' ''maker@example.org''],
     users := [maker]\<rparr>"

definition busyWorld :: world where
  "busyWorld = emptyWorld\<lparr>generatedImages :=
       [listed ''m1'' ''maker@example.org'' 10 30, listed ''m2'' ''maker@example.org'' 5 40,
        draft ''m3'' ''maker@example.org''],
     users := [maker\<lparr>postersForSale := 2\<rparr>]\<rparr>"

definition quotaCalls :: "call list" where
  "quotaCalls =
     [(''maker@example.org'', ''m1'', publishBody 10 30, 0),
      (''maker@example.org'', ''m2'', publishBody 5 40, 10),
      (''maker@example.org'', ''m3'', publishBody 3 50, 10),
      (''maker@example.org'', ''m1'', unpublishBody None None, 10),
      (''maker@example.org'', ''m3'', publishBody 3 50, 10)]"

text \<open>
  A seller whose subscription ends at time 1000, with two drafts. The first poster is
  published at time 0, under the subscription; the second at time 2000, after it has
  lapsed; then the first is withdrawn.
\<close>

definition artist :: user where
  "artist = \<lparr>email = ''artist@example.org'', userType = Some ''artistic_collective'',
     subscriptionStatus = Some ''active'', subscriptionEndDate = Some 1000,
     postersForSale = 0\<rparr>"

definition studioWorld :: world where
  "studioWorld = emptyWorld\<lparr>generatedImages :=
       [draft ''poster-a'' ''artist@example.org'', draft ''poster-b'' ''artist@example.org''],
     users := [artist]\<rparr>"

definition lapseCalls :: "call list" where
  "lapseCalls =
     [(''artist@example.org'', ''poster-a'', publishBody 10 30, 0),
      (''artist@example.org'', ''poster-b'', publishBody 10 30, 2000),
      (''artist@example.org'', ''poster-a'', unpublishBody None None, 1000)]"

text \<open>The worlds after the first, the second and the third of these calls.\<close>

definition lapse1 :: world where
  "lapse1 = snd (patchImagePublic (Some ''artist@example.org'') ''poster-a'' (publishBody 10 30)
                   (elapse 0 studioWorld))"

definition lapse2 :: world where
  "lapse2 = snd (patchImagePublic (Some ''artist@example.org'') ''poster-b'' (publishBody 10 30)
                   (elapse 2000 lapse1))"

definition lapse3 :: world where
  "lapse3 = snd (patchImagePublic (Some ''artist@example.org'') ''poster-a''
                   (unpublishBody None None) (elapse 1000 lapse2))"

text \<open>A published poster of which three of five editions are sold, and its seller.\<close>

definition posterSold :: image where
  "posterSold = \<lparr>id_image = ''poster-s'', userId = ''seller@example.org'', isPublic = True,
     totalSupply = Some 5, soldCount = Some 3, pricePerUnit = Some 30,
     editionPricingType = Some ''flat'', name_image = None, momentLink = None,
     city_image = None, supplyType = None\<rparr>"

definition sellerS :: user where
  "sellerS = \<lparr>email = ''seller@example.org'', userType = None, subscriptionStatus = None,
     subscriptionEndDate = None, postersForSale = 1\<rparr>"

definition galleryWorld :: world where
  "galleryWorld = emptyWorld\<lparr>generatedImages := [posterSold], users := [sellerS]\<rparr>"

definition withdrawnWorld :: world where
  "withdrawnWorld =
     snd (patchImagePublic (Some ''seller@example.org'') ''poster-s''
            (unpublishBody (Some 5) (Some 30)) galleryWorld)"

definition relistedWorld :: world where
  "relistedWorld =
     snd (patchImagePublic (Some ''seller@example.org'') ''poster-s'' (publishBody 2 99)
            withdrawnWorld)"

section \<open>Circuit breaker: proofs\<close>

lemma runProbes_snoc:
  "runProbes h (ps @ [p]) = snd (checkDatabaseHealth (fst p) (snd p) (runProbes h ps))"
  by (induction ps arbitrary: h) simp_all

lemma runProbes_counter:
  "consecutiveFailures (runProbes initialHealth ps) = trailingFailures ps"
proof (induction ps rule: rev_induct)
  case Nil
  show ?case by (simp add: initialHealth_def trailingFailures_def)
next
  case (snoc p ps)
  then show ?case
    by (cases "fst p")
       (simp_all add: runProbes_snoc checkDatabaseHealth_def trailingFailures_def Let_def)
qed

lemma runProbes_flag:
  "databaseHealthy (runProbes initialHealth ps)
     \<longleftrightarrow> consecutiveFailures (runProbes initialHealth ps) < 3"
proof (induction ps rule: rev_induct)
  case Nil
  show ?case by (simp add: initialHealth_def)
next
  case (snoc p ps)
  then show ?case
    by (cases "fst p")
       (auto simp add: runProbes_snoc checkDatabaseHealth_def Let_def)
qed

lemma middleware_state:
  "snd (databaseHealthMiddleware m tnow probe h) = h
   \<or> snd (databaseHealthMiddleware m tnow probe h)
       = snd (checkDatabaseHealth (fst probe) (snd probe) h)"
  by (simp add: databaseHealthMiddleware_def Let_def split: prod.splits)

text \<open>
  C8. A GET request is let through in every health state and leaves the state alone. A
  request is answered with the 503 "retry later" response only if it is not a GET, the
  state was unhealthy when it arrived and is still unhealthy afterwards. Starting from
  the initial state, the state after any sequence of probes is unhealthy exactly when
  the last three or more probes all failed, and a single successful probe makes any
  state healthy again.
\<close>

theorem circuit_breaker_contract:
  "databaseHealthMiddleware ''GET'' tnow probe h = (Proceed, h)
   \<and> (fst (databaseHealthMiddleware m tnow probe h) = ServiceDegraded \<longrightarrow>
        m \<noteq> ''GET'' \<and> \<not> databaseHealthy h
        \<and> \<not> databaseHealthy (snd (databaseHealthMiddleware m tnow probe h)))
   \<and> (\<not> databaseHealthy (runProbes initialHealth ps) \<longleftrightarrow> 3 \<le> trailingFailures ps)
   \<and> databaseHealthy (snd (checkDatabaseHealth True t h))"
proof (intro conjI)
  show "databaseHealthMiddleware ''GET'' tnow probe h = (Proceed, h)"
    by (simp add: databaseHealthMiddleware_def)
  show "fst (databaseHealthMiddleware m tnow probe h) = ServiceDegraded \<longrightarrow>
        m \<noteq> ''GET'' \<and> \<not> databaseHealthy h
        \<and> \<not> databaseHealthy (snd (databaseHealthMiddleware m tnow probe h))"
    by (auto simp add: databaseHealthMiddleware_def checkDatabaseHealth_def Let_def
             split: if_splits prod.splits)
  show "\<not> databaseHealthy (runProbes initialHealth ps) \<longleftrightarrow> 3 \<le> trailingFailures ps"
    using runProbes_flag [of ps] runProbes_counter [of ps] by auto
  show "databaseHealthy (snd (checkDatabaseHealth True t h))"
    by (simp add: checkDatabaseHealth_def)
qed

theorem circuit_breaker_contract_witness:
  "fst (databaseHealthMiddleware ''POST'' 1000
          (False, 1000) (runProbes initialHealth [(False, 10), (False, 20), (False, 30)]))
     = ServiceDegraded
   \<and> \<not> databaseHealthy (runProbes initialHealth [(False, 10), (False, 20), (False, 30)])
   \<and> 3 \<le> trailingFailures [(False, 10), (False, 20), (False, 30)]
   \<and> databaseHealthy (runProbes initialHealth [(False, 10), (False, 20)])"
  using circuit_breaker_contract
          [of 1000 "(False, 1000)"
              "runProbes initialHealth [(False, 10), (False, 20), (False, 30)]"
              "''POST''" "[(False, 10), (False, 20), (False, 30)]" 0]
  by (simp add: databaseHealthMiddleware_def checkDatabaseHealth_def initialHealth_def
                trailingFailures_def Let_def)

section \<open>Retry helper: proofs\<close>

declare executeWithRetry_loop.simps [simp del]

lemma statement_fail:
  "faults w = Some e # rest \<Longrightarrow> statement run w = (Inl e, w\<lparr>faults := rest\<rparr>)"
  by (simp add: statement_def nextFault_def)

lemma statement_ok:
  "faults w = None # rest \<Longrightarrow>
   statement run w = (Inr (fst (run (w\<lparr>faults := rest\<rparr>))), snd (run (w\<lparr>faults := rest\<rparr>)))"
  by (simp add: statement_def nextFault_def split: prod.splits)

lemma statement_ok_empty:
  "faults w = [] \<Longrightarrow> statement run w = (Inr (fst (run w)), snd (run w))"
  by (simp add: statement_def nextFault_def split: prod.splits)

lemma backoff_Suc: "backoff a (Suc n) = (100 * 2 ^ a) # backoff (Suc a) n"
  by (simp add: backoff_def upt_rec)

lemma retry_prefix:
  "\<forall>e \<in> set es. isConnectionError e = Inr True \<Longrightarrow>
   faults w = map Some es @ rest \<Longrightarrow>
   int a + int (length es) \<le> m + 1 \<Longrightarrow>
   executeWithRetry_loop (statement run) m (int a) lastError w
     = executeWithRetry_loop (statement run) m (int a + int (length es))
         (if es = [] then lastError else last es)
         (waited (backoff a (length es)) (w\<lparr>faults := rest\<rparr>))"
proof (induction es arbitrary: a lastError w)
  case Nil
  then have "w\<lparr>faults := rest\<rparr> = w" by simp
  then show ?case by (simp add: backoff_def waited_def)
next
  case (Cons e es)
  have f: "faults w = Some e # (map Some es @ rest)" using Cons.prems(2) by simp
  have c: "isConnectionError e = Inr True" using Cons.prems(1) by simp
  have le: "int a \<le> m" using Cons.prems(3) by simp
  have step: "executeWithRetry_loop (statement run) m (int a) lastError w
     = executeWithRetry_loop (statement run) m (int a + 1) e
         (sleep (100 * 2 ^ a) (w\<lparr>faults := map Some es @ rest\<rparr>))"
    using le c by (subst executeWithRetry_loop.simps) (simp add: statement_fail [OF f])
  have ih: "executeWithRetry_loop (statement run) m (int (Suc a)) e
         (sleep (100 * 2 ^ a) (w\<lparr>faults := map Some es @ rest\<rparr>))
     = executeWithRetry_loop (statement run) m (int (Suc a) + int (length es))
         (if es = [] then e else last es)
         (waited (backoff (Suc a) (length es))
            ((sleep (100 * 2 ^ a) (w\<lparr>faults := map Some es @ rest\<rparr>))\<lparr>faults := rest\<rparr>))"
    using Cons.prems by (intro Cons.IH) (simp_all add: sleep_def)
  show ?case
    using step ih
    by (simp add: backoff_Suc waited_def sleep_def add.commute add.left_commute)
qed

lemma retry_success:
  assumes "\<forall>e \<in> set es. isConnectionError e = Inr True"
      and "faults w = map Some es @ None # rest" and "int (length es) < m"
  shows "executeWithRetry (statement run) m w
           = (Inr (fst (run (waited (backoff 1 (length es)) (w\<lparr>faults := rest\<rparr>)))),
              snd (run (waited (backoff 1 (length es)) (w\<lparr>faults := rest\<rparr>))))"
proof -
  define w1 where "w1 = waited (backoff 1 (length es)) (w\<lparr>faults := None # rest\<rparr>)"
  have f: "faults w1 = None # rest" by (simp add: w1_def waited_def)
  have eq: "w1\<lparr>faults := rest\<rparr> = waited (backoff 1 (length es)) (w\<lparr>faults := rest\<rparr>)"
    by (simp add: w1_def waited_def)
  have "executeWithRetry (statement run) m w
          = executeWithRetry_loop (statement run) m (int 1 + int (length es))
              (if es = [] then Undefined else last es) w1"
    unfolding executeWithRetry_def w1_def
    using retry_prefix [OF assms(1) assms(2), of 1 m run Undefined] assms(3) by simp
  also have "\<dots> = (Inr (fst (run (w1\<lparr>faults := rest\<rparr>))), snd (run (w1\<lparr>faults := rest\<rparr>)))"
    using assms(3) by (subst executeWithRetry_loop.simps) (simp add: statement_ok [OF f])
  finally show ?thesis by (simp only: eq)
qed

lemma retry_terminal:
  assumes "\<forall>e \<in> set es. isConnectionError e = Inr True"
      and "faults w = map Some es @ Some e # rest" and "int (length es) < m"
      and "isConnectionError e = Inr False"
  shows "executeWithRetry (statement run) m w
           = (Inl e, waited (backoff 1 (length es)) (w\<lparr>faults := rest\<rparr>))"
proof -
  define w1 where "w1 = waited (backoff 1 (length es)) (w\<lparr>faults := Some e # rest\<rparr>)"
  have f: "faults w1 = Some e # rest" by (simp add: w1_def waited_def)
  have eq: "w1\<lparr>faults := rest\<rparr> = waited (backoff 1 (length es)) (w\<lparr>faults := rest\<rparr>)"
    by (simp add: w1_def waited_def)
  have "executeWithRetry (statement run) m w
          = executeWithRetry_loop (statement run) m (int 1 + int (length es))
              (if es = [] then Undefined else last es) w1"
    unfolding executeWithRetry_def w1_def
    using retry_prefix [OF assms(1) assms(2), of 1 m run Undefined] assms(3) by simp
  also have "\<dots> = (Inl e, w1\<lparr>faults := rest\<rparr>)"
    using assms(3,4) by (subst executeWithRetry_loop.simps) (simp add: statement_fail [OF f])
  finally show ?thesis by (simp only: eq)
qed

lemma retry_exhausted:
  assumes "\<forall>e \<in> set es. isConnectionError e = Inr True"
      and "faults w = map Some es @ rest" and "int (length es) = m" and "es \<noteq> []"
  shows "executeWithRetry (statement run) m w
           = (Inl (last es), waited (backoff 1 (length es)) (w\<lparr>faults := rest\<rparr>))"
proof -
  have "executeWithRetry (statement run) m w
          = executeWithRetry_loop (statement run) m (int 1 + int (length es))
              (if es = [] then Undefined else last es)
              (waited (backoff 1 (length es)) (w\<lparr>faults := rest\<rparr>))"
    unfolding executeWithRetry_def using retry_prefix [OF assms(1) assms(2), of 1 m run Undefined] assms(3)
    by simp
  also have "\<dots> = (Inl (last es), waited (backoff 1 (length es)) (w\<lparr>faults := rest\<rparr>))"
    using assms(3,4) by (subst executeWithRetry_loop.simps) simp
  finally show ?thesis .
qed

lemma executeWithRetry_first_attempt:
  assumes "1 \<le> maxRetries"
  shows "queryFn w = (Inr r, w') \<Longrightarrow> executeWithRetry queryFn maxRetries w = (Inr r, w')"
    and "queryFn w = (Inl e, w') \<Longrightarrow> isConnectionError e = Inr False \<Longrightarrow>
         executeWithRetry queryFn maxRetries w = (Inl e, w')"
  unfolding executeWithRetry_def
  using assms by (subst executeWithRetry_loop.simps, simp)+

text \<open>
  C7, as the code has it. For every operation and at least one allowed attempt: a result
  is returned as it is, and an error that \<open>isConnectionError\<close> rejects is thrown at once,
  in the world the single invocation left. Further, let the operation be a database
  statement whose first
  \<open>length es\<close> attempts fail with errors that \<open>isConnectionError\<close> accepts (a code of the
  list, or a message containing "connection" or "timeout"). Then \<open>executeWithRetry\<close> waits
  100 ms * 2^attempt after each of these failures, attempts counted from 1, and:
  if fewer than \<open>maxRetries\<close> attempts failed and the next one succeeds, its result is
  returned; if fewer than \<open>maxRetries\<close> attempts failed and the next one fails with an
  error that \<open>isConnectionError\<close> rejects, that error is thrown at once and the statement
  is not run again; if all \<open>maxRetries\<close> attempts failed, the last error is thrown.
\<close>

theorem executeWithRetry_retries_connection_errors_only:
  assumes "\<forall>x \<in> set es. isConnectionError x = Inr True"
  shows
  "(1 \<le> maxRetries \<and> queryFn w = (Inr r, w') \<longrightarrow>
      executeWithRetry queryFn maxRetries w = (Inr r, w'))
   \<and> (1 \<le> maxRetries \<and> queryFn w = (Inl e, w') \<and> isConnectionError e = Inr False \<longrightarrow>
      executeWithRetry queryFn maxRetries w = (Inl e, w'))
   \<and> (faults w = map Some es @ None # rest \<and> int (length es) < maxRetries \<longrightarrow>
      executeWithRetry (statement run) maxRetries w
        = (Inr (fst (run (waited (backoff 1 (length es)) (w\<lparr>faults := rest\<rparr>)))),
           snd (run (waited (backoff 1 (length es)) (w\<lparr>faults := rest\<rparr>)))))
   \<and> (faults w = map Some es @ Some e # rest \<and> int (length es) < maxRetries
        \<and> isConnectionError e = Inr False \<longrightarrow>
      executeWithRetry (statement run) maxRetries w
        = (Inl e, waited (backoff 1 (length es)) (w\<lparr>faults := rest\<rparr>)))
   \<and> (faults w = map Some es @ rest \<and> int (length es) = maxRetries \<and> es \<noteq> [] \<longrightarrow>
      executeWithRetry (statement run) maxRetries w
        = (Inl (last es), waited (backoff 1 (length es)) (w\<lparr>faults := rest\<rparr>)))"
proof (intro conjI impI)
  assume "1 \<le> maxRetries \<and> queryFn w = (Inr r, w')"
  then show "executeWithRetry queryFn maxRetries w = (Inr r, w')"
    by (simp add: executeWithRetry_first_attempt(1))
next
  assume "1 \<le> maxRetries \<and> queryFn w = (Inl e, w') \<and> isConnectionError e = Inr False"
  then show "executeWithRetry queryFn maxRetries w = (Inl e, w')"
    by (simp add: executeWithRetry_first_attempt(2))
next
  assume "faults w = map Some es @ None # rest \<and> int (length es) < maxRetries"
  then show "executeWithRetry (statement run) maxRetries w
        = (Inr (fst (run (waited (backoff 1 (length es)) (w\<lparr>faults := rest\<rparr>)))),
           snd (run (waited (backoff 1 (length es)) (w\<lparr>faults := rest\<rparr>))))"
    using retry_success [OF assms] by blast
next
  assume "faults w = map Some es @ Some e # rest \<and> int (length es) < maxRetries
        \<and> isConnectionError e = Inr False"
  then show "executeWithRetry (statement run) maxRetries w
        = (Inl e, waited (backoff 1 (length es)) (w\<lparr>faults := rest\<rparr>))"
    using retry_terminal [OF assms] by blast
next
  assume "faults w = map Some es @ rest \<and> int (length es) = maxRetries \<and> es \<noteq> []"
  then show "executeWithRetry (statement run) maxRetries w
        = (Inl (last es), waited (backoff 1 (length es)) (w\<lparr>faults := rest\<rparr>))"
    using retry_exhausted [OF assms] by blast
qed

theorem executeWithRetry_retries_connection_errors_only_witness:
  "executeWithRetry (selectImages Db ''img1'') 3
      (emptyWorld\<lparr>faults := [Some connectionFailure, Some serializationFailure, None]\<rparr>)
    = (Inl serializationFailure, emptyWorld\<lparr>now := 200, slept := [200], faults := [None]\<rparr>)"
  using executeWithRetry_retries_connection_errors_only
     [where es = "[connectionFailure]" and e = serializationFailure and rest = "[None]"
        and maxRetries = 3
        and run = "\<lambda>w. (filter (\<lambda>r. id_image r = ''img1'') (generatedImages w), w)"
        and queryFn = "selectImages Db ''img1''" and r = "[]" and w' = emptyWorld
        and w = "emptyWorld\<lparr>faults := [Some connectionFailure, Some serializationFailure, None]\<rparr>"]
  by (simp add: selectImages_def visible_def statement_def nextFault_def waited_def backoff_def
        emptyWorld_def serializationFailure_def connectionFailure_def connectionErrorCodes_def)

text \<open>
  C7, as stated, fails: a serialization failure is not retried. The statement fails once
  with SQLSTATE 40001 and would succeed on a second attempt, two attempts remain, yet
  the error is thrown at once, without any delay, and the second outcome is still
  scheduled.
\<close>

theorem executeWithRetry_serialization_failure_not_retried:
  "executeWithRetry (selectImages Db ''img1'') 3
      (emptyWorld\<lparr>faults := [Some serializationFailure, None]\<rparr>)
    = (Inl serializationFailure, emptyWorld\<lparr>faults := [None]\<rparr>)"
  by (simp add: executeWithRetry_def executeWithRetry_loop.simps selectImages_def statement_def
        nextFault_def emptyWorld_def serializationFailure_def connectionErrorCodes_def)

section \<open>Query cache: proofs\<close>

lemma unwrap_defined [simp]: "unwrap x \<noteq> VUndefined"
  by (simp add: unwrap_def)

lemma cacheGet_hit_world:
  "fst (cacheGet key w) \<noteq> VUndefined \<Longrightarrow> snd (cacheGet key w) = w"
  by (auto simp add: cacheGet_def split: option.splits if_splits)

lemma cachedQuery_hit:
  assumes "fst (cacheGet key w) \<noteq> VUndefined"
  shows "cachedQuery key queryFn ttl w = (Inr (fst (cacheGet key w)), w)"
proof -
  obtain c w' where g: "cacheGet key w = (c, w')" by (cases "cacheGet key w")
  with assms cacheGet_hit_world [OF assms] have "c \<noteq> VUndefined" "w' = w" by simp_all
  then show ?thesis by (simp add: cachedQuery_def g)
qed

lemma cachedQuery_miss:
  assumes "fst (cacheGet key w) = VUndefined"
  shows "cachedQuery key queryFn ttl w =
     (case executeWithRetry queryFn 3 (snd (cacheGet key w)) of
        (Inl e, w2) \<Rightarrow> (Inl e, w2)
      | (Inr result, w2) \<Rightarrow> (Inr result, cacheSet key result ttl w2))"
proof -
  obtain c w' where g: "cacheGet key w = (c, w')" by (cases "cacheGet key w")
  with assms have "c = VUndefined" by simp
  then show ?thesis by (simp add: cachedQuery_def g)
qed

lemma cachedQuery_miss_stores:
  assumes "fst (cacheGet key w) = VUndefined"
      and "cachedQuery key queryFn ttl w = (Inr r, w1)"
  shows "\<exists>w2. w1 = cacheSet key r ttl w2"
proof -
  obtain x w2 where ex: "executeWithRetry queryFn 3 (snd (cacheGet key w)) = (x, w2)"
    by (cases "executeWithRetry queryFn 3 (snd (cacheGet key w))")
  from assms(2) cachedQuery_miss [OF assms(1), of queryFn ttl] ex
  have "w1 = cacheSet key r ttl w2" by (cases x) auto
  then show ?thesis ..
qed

lemma cacheGet_fresh:
  assumes "ttl = 0 \<or> ms \<le> ttl * 1000"
  shows "cacheGet key (elapse ms (cacheSet key r ttl w))
           = (unwrap r, elapse ms (cacheSet key r ttl w))"
  using assms by (auto simp add: cacheGet_def cacheSet_def elapse_def)

lemma cacheGet_expired:
  assumes "ttl \<noteq> 0" and "now w + ttl * 1000 \<noteq> 0" and "ttl * 1000 < ms"
  shows "cacheGet key (elapse ms (cacheSet key r ttl w))
           = (VUndefined, cacheDel key (elapse ms (cacheSet key r ttl w)))"
  using assms by (simp add: cacheGet_def cacheSet_def elapse_def)

lemma cacheSet_now [simp]: "now (cacheSet key r ttl w) = now w"
  by (simp add: cacheSet_def)

text \<open>
  C10, as the code has it. Take a call of \<open>cachedQuery\<close> that found no usable entry, ran
  its producer and returned the result \<open>r\<close>, whatever \<open>r\<close> is. Until the TTL of that call
  has passed (and for ever when the TTL is 0), every later call for the key returns the
  stored result from the cache, \<open>null\<close> in place of \<open>undefined\<close>, and leaves the world as it
  is, whatever its producer: the producer is not run. Once the TTL has passed, the entry
  is dropped and the next call runs its producer again through \<open>executeWithRetry\<close> and
  stores the new result.
\<close>

theorem cachedQuery_serves_any_stored_result:
  assumes "fst (cacheGet key w) = VUndefined"
      and "cachedQuery key queryFn ttl w = (Inr r, w1)"
  shows
  "(ttl = 0 \<or> ms \<le> ttl * 1000 \<longrightarrow>
      cachedQuery key queryFn' ttl' (elapse ms w1) = (Inr (unwrap r), elapse ms w1))
   \<and> (ttl \<noteq> 0 \<and> now w1 + ttl * 1000 \<noteq> 0 \<and> ttl * 1000 < ms \<longrightarrow>
      cachedQuery key queryFn' ttl' (elapse ms w1)
        = (case executeWithRetry queryFn' 3 (cacheDel key (elapse ms w1)) of
             (Inl e, w2) \<Rightarrow> (Inl e, w2)
           | (Inr result, w2) \<Rightarrow> (Inr result, cacheSet key result ttl' w2)))"
proof -
  obtain w2 where w1: "w1 = cacheSet key r ttl w2"
    using cachedQuery_miss_stores [OF assms] by blast
  show ?thesis
  proof (intro conjI impI)
    assume "ttl = 0 \<or> ms \<le> ttl * 1000"
    then have g: "cacheGet key (elapse ms w1) = (unwrap r, elapse ms w1)"
      unfolding w1 by (rule cacheGet_fresh)
    then have "fst (cacheGet key (elapse ms w1)) \<noteq> VUndefined" by simp
    from cachedQuery_hit [OF this, of queryFn' ttl'] g
    show "cachedQuery key queryFn' ttl' (elapse ms w1) = (Inr (unwrap r), elapse ms w1)"
      by simp
  next
    assume "ttl \<noteq> 0 \<and> now w1 + ttl * 1000 \<noteq> 0 \<and> ttl * 1000 < ms"
    then have g: "cacheGet key (elapse ms w1) = (VUndefined, cacheDel key (elapse ms w1))"
      unfolding w1 by (simp add: cacheGet_expired)
    then have "fst (cacheGet key (elapse ms w1)) = VUndefined" by simp
    from cachedQuery_miss [OF this, of queryFn' ttl'] g
    show "cachedQuery key queryFn' ttl' (elapse ms w1)
        = (case executeWithRetry queryFn' 3 (cacheDel key (elapse ms w1)) of
             (Inl e, w2) \<Rightarrow> (Inl e, w2)
           | (Inr result, w2) \<Rightarrow> (Inr result, cacheSet key result ttl' w2))"
      by simp
  qed
qed

lemmas cache_eval_defs =
  cachedQuery_def cacheGet_def cacheSet_def cacheDel_def unwrap_def elapse_def imageQuery_def
  selectImages_def visible_def executeWithRetry_def executeWithRetry_loop.simps statement_def
  nextFault_def emptyWorld_def serializationFailure_def connectionErrorCodes_def

text \<open>
  An image that exists is looked up and found; one second later a second lookup, whose
  producer would look for another image, is answered with the stored row.
\<close>

theorem cachedQuery_serves_any_stored_result_witness:
  "cachedQuery ''generated-image:poster-a'' (imageQuery ''poster-a'') 60 shopWorld
     = (Inr (VImage posterA),
        cacheSet ''generated-image:poster-a'' (VImage posterA) 60 shopWorld)
   \<and> cachedQuery ''generated-image:poster-a'' (imageQuery ''x'') 60
        (elapse 1000 (cacheSet ''generated-image:poster-a'' (VImage posterA) 60 shopWorld))
     = (Inr (VImage posterA),
        elapse 1000 (cacheSet ''generated-image:poster-a'' (VImage posterA) 60 shopWorld))"
proof -
  let ?k = "''generated-image:poster-a''"
  let ?w1 = "cacheSet ?k (VImage posterA) 60 shopWorld"
  have miss: "fst (cacheGet ?k shopWorld) = VUndefined"
    by (simp add: cacheGet_def shopWorld_def emptyWorld_def)
  have c1: "cachedQuery ?k (imageQuery ''poster-a'') 60 shopWorld = (Inr (VImage posterA), ?w1)"
    by (simp add: shopWorld_def posterA_def cache_eval_defs)
  have "cachedQuery ?k (imageQuery ''x'') 60 (elapse 1000 ?w1)
          = (Inr (unwrap (VImage posterA)), elapse 1000 ?w1)"
    using cachedQuery_serves_any_stored_result
      [OF miss c1, where ms = 1000 and queryFn' = "imageQuery ''x''" and ttl' = 60]
    by simp
  then show ?thesis using c1 by (simp add: unwrap_def)
qed

text \<open>
  C10, as stated, fails. An image that does not exist is looked up: the producer runs,
  returns \<open>undefined\<close>, and \<open>undefined\<close> is stored. One second later the same lookup is
  answered from the cache with \<open>null\<close>: the world is unchanged, and the statement the
  producer would have sent, scheduled to fail, has not been sent.
\<close>

theorem cachedQuery_serves_cached_miss:
  "cachedQuery ''generated-image:x'' (imageQuery ''x'') 60
      (emptyWorld\<lparr>faults := [None, Some serializationFailure]\<rparr>)
     = (Inr VUndefined,
        cacheSet ''generated-image:x'' VUndefined 60
          (emptyWorld\<lparr>faults := [Some serializationFailure]\<rparr>))
   \<and> cachedQuery ''generated-image:x'' (imageQuery ''x'') 60
        (elapse 1000
           (cacheSet ''generated-image:x'' VUndefined 60
              (emptyWorld\<lparr>faults := [Some serializationFailure]\<rparr>)))
     = (Inr VNull,
        elapse 1000
          (cacheSet ''generated-image:x'' VUndefined 60
             (emptyWorld\<lparr>faults := [Some serializationFailure]\<rparr>)))"
  by (simp add: cache_eval_defs)

section \<open>Store primitives: proofs\<close>

lemma invalidateCache_fields [simp]:
  "now (invalidateCache k w) = now w"
  "slept (invalidateCache k w) = slept w"
  "faults (invalidateCache k w) = faults w"
  "generatedImages (invalidateCache k w) = generatedImages w"
  "users (invalidateCache k w) = users w"
  "posterPurchases (invalidateCache k w) = posterPurchases w"
  "orders (invalidateCache k w) = orders w"
  "txLog (invalidateCache k w) = txLog w"
  by (simp_all add: invalidateCache_def cacheDel_def)

lemma applyWrite_fields [simp]:
  "now (applyWrite wr w) = now w"
  "slept (applyWrite wr w) = slept w"
  "faults (applyWrite wr w) = faults w"
  "txLog (applyWrite wr w) = txLog w"
  "queryCache (applyWrite wr w) = queryCache w"
  by (cases wr; simp)+

lemma executeWithRetry_ok:
  assumes "faults w = []" and "1 \<le> m"
  shows "executeWithRetry (statement run) m w = (Inr (fst (run w)), snd (run w))"
  unfolding executeWithRetry_def
  using assms by (subst executeWithRetry_loop.simps) (simp add: statement_ok_empty)

lemma selectImages_ok:
  "faults w = [] \<Longrightarrow>
   selectImages c i w = (Inr (filter (\<lambda>r. id_image r = i) (generatedImages (visible c w))), w)"
  by (simp add: selectImages_def statement_ok_empty)

lemma execWrite_ok:
  "faults w = [] \<Longrightarrow>
   execWrite c wr w
     = (Inr (), (case c of Db \<Rightarrow> applyWrite wr w | Tx \<Rightarrow> w\<lparr>txLog := txLog w @ [wr]\<rparr>))"
  by (simp add: execWrite_def statement_ok_empty)

lemma createPosterPurchase_ok:
  "faults w = [] \<Longrightarrow>
   createPosterPurchase p w
     = (Inr (p\<lparr>id_purchase := int (length (posterPurchases w)) + 1\<rparr>),
        invalidateCache (''poster-purchases:'' @ imageId p) (applyWrite (InsertPurchase p) w))"
  by (simp add: createPosterPurchase_def insertPurchase_def executeWithRetry_ok Let_def)

lemma createOrder_ok:
  "faults w = [] \<Longrightarrow>
   createOrder r w = (Inr (), invalidateCache ''orders:list'' (applyWrite (InsertOrder r) w))"
  by (simp add: createOrder_def execWrite_def executeWithRetry_ok)

lemma sameTables_refl [simp]: "sameTables w w"
  by (simp add: sameTables_def)

lemma quotaInv_sameTables: "sameTables w' w \<Longrightarrow> quotaInv e w \<Longrightarrow> quotaInv e w'"
  by (simp add: sameTables_def quotaInv_def published_def)

lemma statement_result:
  "case statement run w of
     (Inl e, w') \<Rightarrow> w' = w\<lparr>faults := tl (faults w)\<rparr>
   | (Inr r, w') \<Rightarrow> (r, w') = run (w\<lparr>faults := tl (faults w)\<rparr>)"
proof (cases "faults w")
  case Nil
  then have eq: "w\<lparr>faults := []\<rparr> = w" by simp
  show ?thesis
    by (simp add: statement_def nextFault_def Nil eq split: prod.splits)
next
  case (Cons f fs)
  then show ?thesis
    by (cases f) (simp_all add: statement_def nextFault_def split: prod.splits)
qed

lemma execWrite_Tx_result:
  "case execWrite Tx wr w of
     (Inl e, w') \<Rightarrow> w' = w\<lparr>faults := tl (faults w)\<rparr>
   | (Inr u, w') \<Rightarrow> w' = w\<lparr>faults := tl (faults w), txLog := txLog w @ [wr]\<rparr>"
  using statement_result [where run = "\<lambda>w. ((), w\<lparr>txLog := txLog w @ [wr]\<rparr>)" and w = w]
  by (simp add: execWrite_def split: prod.splits sum.splits)

lemma selectImages_Db_result:
  "case selectImages Db i w of
     (Inl e, w') \<Rightarrow> w' = w\<lparr>faults := tl (faults w)\<rparr>
   | (Inr rs, w') \<Rightarrow> rs = filter (\<lambda>r. id_image r = i) (generatedImages w)
                      \<and> w' = w\<lparr>faults := tl (faults w)\<rparr>"
  using statement_result [where run = "\<lambda>w. (filter (\<lambda>r. id_image r = i) (generatedImages w), w)" and w = w]
  by (simp add: selectImages_def visible_def split: prod.splits sum.splits)

lemma selectUsers_Db_result:
  "case selectUsers Db e w of
     (Inl x, w') \<Rightarrow> w' = w\<lparr>faults := tl (faults w)\<rparr>
   | (Inr us, w') \<Rightarrow> us = filter (\<lambda>u. email u = e) (users w)
                      \<and> w' = w\<lparr>faults := tl (faults w)\<rparr>"
  using statement_result [where run = "\<lambda>w. (filter (\<lambda>u. email u = e) (users w), w)" and w = w]
  by (simp add: selectUsers_def visible_def split: prod.splits sum.splits)

lemmas eval_defs =
  purchasePoster_def transaction_def purchaseTx_def selectImages_def selectUsers_def
  execWrite_def createPosterPurchase_def insertPurchase_def createOrder_def statement_def
  nextFault_def visible_def commit_def rollback_def invalidateCache_def cacheDel_def
  cacheGet_def cacheSet_def unwrap_def cachedQuery_def executeWithRetry_def
  executeWithRetry_loop.simps getGeneratedImageById_def imageQuery_def checkImageAvailability_def elapse_def sleep_def
  patchImagePublic_def requireAuthentication_def setImagePublic_def setPublicTx_def
  updateData_def isSubscribed_def emptyWorld_def connectionFailure_def uniqueViolation_def
  connectionErrorCodes_def requiredFields_def priceFloor_def Let_def

section \<open>Purchase: proofs\<close>

lemma purchaseTx_sold_out:
  assumes "faults w = []" and "txLog w = []"
      and "filter (\<lambda>r. id_image r = iid) (generatedImages w) = img # others"
      and "isPublic img" and "orElse (soldCount img) 0 \<ge> orElse (totalSupply img) 10"
  shows "purchaseTx usr iid sd c w
           = (Inl (Error None (Some ''This limited edition is sold out'')), w)"
  using assms by (simp add: purchaseTx_def selectImages_ok visible_def Let_def)

lemma purchaseTx_available:
  assumes "faults w = []" and "txLog w = []"
      and "filter (\<lambda>r. id_image r = iid) (generatedImages w) = img # others"
      and "isPublic img" and "orElse (soldCount img) 0 < orElse (totalSupply img) 10"
  shows "purchaseTx usr iid sd c w
           = (Inr (PurchaseJson c (orElse (soldCount img) 0 + 1) (totalSupply img)
                     (orElse (pricePerUnit img) priceFloor)
                     (int (length (posterPurchases w)) + 1)),
              invalidateCache ''orders:list''
                (applyWrite
                   (InsertOrder \<lparr>shipping = List.map_filter
                                     (\<lambda>f. map_option (Pair f) (map_of sd f)) requiredFields,
                                 confirmationId = c, quantity = 1,
                                 amount = orElse (pricePerUnit img) priceFloor,
                                 status = ''paid''\<rparr>)
                   ((invalidateCache (''poster-purchases:'' @ iid)
                      (applyWrite
                         (InsertPurchase \<lparr>id_purchase = 0, userEmail = email usr, imageId = iid,
                            editionNumber = orElse (soldCount img) 0 + 1, purchaseDate = now w,
                            amountPaid = orElse (pricePerUnit img) priceFloor\<rparr>) w))
                    \<lparr>txLog := [UpdateImages iid
                          (\<lambda>r. r\<lparr>soldCount := Some (orElse (soldCount img) 0 + 1)\<rparr>)]\<rparr>)))"
  using assms
  by (simp add: purchaseTx_def selectImages_ok visible_def Let_def createPosterPurchase_ok
        execWrite_ok createOrder_ok)

lemma find_required:
  "\<forall>f \<in> set requiredFields. \<exists>x. map_of sd f = Some x \<and> x \<noteq> [] \<Longrightarrow>
   find (\<lambda>f. case map_of sd f of None \<Rightarrow> True | Some x \<Rightarrow> x = []) requiredFields = None"
  by (auto simp add: find_None_iff)

text \<open>
  C2. A purchase request with complete shipping data, for an existing published image
  whose total supply is set and positive, served by a store on which no statement
  fails. With \<open>soldCount\<close> read as 0 when it is null: if \<open>soldCount \<ge> totalSupply\<close> the answer
  is the sold-out error and no table changes; otherwise the answer carries the edition
  number \<open>soldCount + 1\<close>, exactly one purchase row with that edition number is appended, and
  the image's sold count becomes that number.
\<close>

theorem purchase_assigns_next_edition:
  assumes "faults w = []"
      and "imageId_body body = Some iid" and "iid \<noteq> []" and "shippingData body = Some sd"
      and "\<forall>f \<in> set requiredFields. \<exists>x. map_of sd f = Some x \<and> x \<noteq> []"
      and "filter (\<lambda>r. id_image r = iid) (generatedImages w) = img # others"
      and "isPublic img" and "totalSupply img = Some n" and "0 < n"
  shows
  "(orElse (soldCount img) 0 \<ge> n \<longrightarrow>
      fst (purchasePoster usr body c w) = SoldOut
      \<and> posterPurchases (snd (purchasePoster usr body c w)) = posterPurchases w
      \<and> orders (snd (purchasePoster usr body c w)) = orders w
      \<and> generatedImages (snd (purchasePoster usr body c w)) = generatedImages w)
   \<and> (orElse (soldCount img) 0 < n \<longrightarrow>
      fst (purchasePoster usr body c w)
        = PurchaseJson c (orElse (soldCount img) 0 + 1) (Some n)
            (orElse (pricePerUnit img) priceFloor) (int (length (posterPurchases w)) + 1)
      \<and> posterPurchases (snd (purchasePoster usr body c w))
        = posterPurchases w @
            [\<lparr>id_purchase = int (length (posterPurchases w)) + 1, userEmail = email usr,
              imageId = iid, editionNumber = orElse (soldCount img) 0 + 1,
              purchaseDate = now w, amountPaid = orElse (pricePerUnit img) priceFloor\<rparr>]
      \<and> generatedImages (snd (purchasePoster usr body c w))
        = map (\<lambda>r. if id_image r = iid
                     then r\<lparr>soldCount := Some (orElse (soldCount img) 0 + 1)\<rparr> else r)
            (generatedImages w))"
proof -
  let ?w = "w\<lparr>txLog := []\<rparr>"
  have f: "faults ?w = []" and t: "txLog ?w = []"
    and g: "filter (\<lambda>r. id_image r = iid) (generatedImages ?w) = img # others"
    using assms(1,6) by simp_all
  have sup: "orElse (totalSupply img) 10 = n" using assms(8,9) by simp
  have pp: "purchasePoster usr body c w
      = (case transaction (purchaseTx usr iid sd c) w of
           (Inr r, w') \<Rightarrow> (r, w')
         | (Inl e, w') \<Rightarrow>
             (ErrorJson 500
                (case e of Error c (Some m) \<Rightarrow> m | other \<Rightarrow> ''Failed to process purchase''), w'))"
    using assms(2,3,4) find_required [OF assms(5)] by (simp add: purchasePoster_def)
  show ?thesis
  proof (intro conjI impI)
    assume so: "n \<le> orElse (soldCount img) 0"
    have tx: "purchaseTx usr iid sd c ?w
        = (Inl (Error None (Some ''This limited edition is sold out'')), ?w)"
      using purchaseTx_sold_out [OF f t g assms(7)] so sup by simp
    have res: "purchasePoster usr body c w = (SoldOut, ?w)"
      by (simp add: pp transaction_def tx rollback_def SoldOut_def)
    show "fst (purchasePoster usr body c w) = SoldOut"
      and "posterPurchases (snd (purchasePoster usr body c w)) = posterPurchases w"
      and "orders (snd (purchasePoster usr body c w)) = orders w"
      and "generatedImages (snd (purchasePoster usr body c w)) = generatedImages w"
      by (simp_all add: res)
  next
    assume av: "orElse (soldCount img) 0 < n"
    have av': "orElse (soldCount img) 0 < orElse (totalSupply img) 10" using av sup by simp
    note tx = purchaseTx_available [OF f t g assms(7) av', of usr sd c]
    show "fst (purchasePoster usr body c w)
        = PurchaseJson c (orElse (soldCount img) 0 + 1) (Some n)
            (orElse (pricePerUnit img) priceFloor) (int (length (posterPurchases w)) + 1)"
      by (simp add: pp transaction_def tx assms(8))
    show "posterPurchases (snd (purchasePoster usr body c w))
        = posterPurchases w @
            [\<lparr>id_purchase = int (length (posterPurchases w)) + 1, userEmail = email usr,
              imageId = iid, editionNumber = orElse (soldCount img) 0 + 1,
              purchaseDate = now w, amountPaid = orElse (pricePerUnit img) priceFloor\<rparr>]"
      by (simp add: pp transaction_def tx commit_def)
    show "generatedImages (snd (purchasePoster usr body c w))
        = map (\<lambda>r. if id_image r = iid
                     then r\<lparr>soldCount := Some (orElse (soldCount img) 0 + 1)\<rparr> else r)
            (generatedImages w)"
      by (simp add: pp transaction_def tx commit_def)
  qed
qed

theorem purchase_assigns_next_edition_witness:
  "fst (purchasePoster buyerB orderBody ''LED-123456'' shopWorld)
     = PurchaseJson ''LED-123456'' 1 (Some 1) 30 1
   \<and> map editionNumber
        (posterPurchases (snd (purchasePoster buyerB orderBody ''LED-123456'' shopWorld))) = [1]
   \<and> map soldCount
        (generatedImages (snd (purchasePoster buyerB orderBody ''LED-123456'' shopWorld)))
      = [Some 1]"
  using purchase_assigns_next_edition
    [where w = shopWorld and body = orderBody and iid = "''poster-a''" and img = posterA
       and others = "[]" and n = 1 and usr = buyerB and c = "''LED-123456''"
       and sd = "[(''firstName'', ''B''), (''lastName'', ''Buyer''),
       (''email'', ''buyer@example.org''), (''address'', ''1 Main St''), (''city'', ''Bern''),
       (''state'', ''BE''), (''zipCode'', ''3000''), (''country'', ''CH'')]"]
  by (simp add: shopWorld_def emptyWorld_def orderBody_def posterA_def requiredFields_def)

text \<open>
  C1, evaluated where it fails. The image is read, the purchase row is inserted, and the
  update of the sold count fails. The handler answers 500 and the transaction is rolled
  back, but the purchase row was written on \<open>db\<close>, outside the transaction, and stays:
  edition 1 is recorded while the sold count is still 0. The same request sent again
  is given edition 1 once more: on a store that accepts the second row it succeeds, and
  on a store that refuses the second row as a duplicate it is answered 500, the tables
  staying as the failed request left them.
\<close>

theorem purchase_failure_leaves_purchase_row:
  "fst (purchasePoster buyerB orderBody ''LED-123456''
          (shopWorld\<lparr>faults := [None, None, Some connectionFailure]\<rparr>))
     = ErrorJson 500 ''server closed the connection unexpectedly''
   \<and> map imageId (posterPurchases afterFailedPurchase) = [''poster-a'']
   \<and> map editionNumber (posterPurchases afterFailedPurchase) = [1]
   \<and> map soldCount (generatedImages afterFailedPurchase) = [Some 0]
   \<and> fst (purchasePoster buyerB orderBody ''LED-654321'' afterFailedPurchase)
     = PurchaseJson ''LED-654321'' 1 (Some 1) 30 2
   \<and> fst (purchasePoster buyerB orderBody ''LED-654321''
            (afterFailedPurchase\<lparr>faults := [None, Some uniqueViolation]\<rparr>))
     = ErrorJson 500 ''duplicate key value violates unique constraint''
   \<and> map editionNumber
        (posterPurchases
           (snd (purchasePoster buyerB orderBody ''LED-654321''
                   (afterFailedPurchase\<lparr>faults := [None, Some uniqueViolation]\<rparr>)))) = [1]
   \<and> map soldCount
        (generatedImages
           (snd (purchasePoster buyerB orderBody ''LED-654321''
                   (afterFailedPurchase\<lparr>faults := [None, Some uniqueViolation]\<rparr>)))) = [Some 0]"
  by (simp add: afterFailedPurchase_def shopWorld_def orderBody_def posterA_def buyerB_def
        eval_defs)





lemma orElse_zero [simp]: "orElse (Some x) 0 = x"
  by simp





section \<open>Publish quota: proofs\<close>

lemma over_quota_no_mutation:
  assumes "isPublic_body body = Some True" and "\<not> isSubscribed usr (now w)"
      and "postersForSale usr \<ge> 2"
  shows "sameTables (snd (setImagePublic usr i body w)) w"
    and "queryCache (snd (setImagePublic usr i body w)) = queryCache w"
    and "posterPurchases (snd (setImagePublic usr i body w)) = posterPurchases w"
    and "fst (setImagePublic usr i body w) \<noteq> SuccessJson"
proof -
  obtain r w1 where s: "selectImages Db i w = (r, w1)" by (cases "selectImages Db i w")
  have w1: "w1 = w\<lparr>faults := tl (faults w)\<rparr>"
    using selectImages_Db_result [where i = i and w = w] by (cases r) (simp_all add: s)
  have res: "snd (setImagePublic usr i body w) = w \<or> snd (setImagePublic usr i body w) = w1"
    using assms w1
    by (auto simp add: setImagePublic_def s split: option.splits sum.splits list.splits)
  then show "sameTables (snd (setImagePublic usr i body w)) w"
    and "queryCache (snd (setImagePublic usr i body w)) = queryCache w"
    and "posterPurchases (snd (setImagePublic usr i body w)) = posterPurchases w"
    using w1 by (auto simp add: sameTables_def)
  show "fst (setImagePublic usr i body w) \<noteq> SuccessJson"
    using assms w1
    by (auto simp add: setImagePublic_def s QuotaExceeded_def InvalidSupplyChange_def
          split: option.splits sum.splits list.splits)
qed

lemma priceFloor_pos: "0 < priceFloor"
  by (simp add: priceFloor_def)

lemma over_quota_response:
  assumes "isPublic_body body = Some True" and "\<not> isSubscribed usr (now w)"
      and "postersForSale usr \<ge> 2"
      and "totalSupply_body body = Some n" and "1 \<le> n" and "n \<le> 1000"
      and "pricePerUnit_body body = Some p" and "priceFloor \<le> p"
      and "faults w = []"
      and "filter (\<lambda>r. id_image r = i) (generatedImages w) = img # others"
      and "userId img = email usr"
  shows "setImagePublic usr i body w = (QuotaExceeded, w)"
  using assms priceFloor_pos
  by (simp add: setImagePublic_def selectImages_ok visible_def)

text \<open>
  C9. A publish request of a seller who is not subscribed and whose counter is 2 or more
  changes no table and no cache entry and is never answered with success. When the
  request passes the checks made before the quota check (supply between 1 and 1000, price
  not below the source's 29.95, the image exists and belongs to the seller, the read of the image does
  not fail), the answer is the quota error and the world is left exactly as it was.
\<close>

theorem publish_over_quota_rejected:
  assumes "isPublic_body body = Some True" and "\<not> isSubscribed usr (now w)"
      and "postersForSale usr \<ge> 2"
  shows
  "generatedImages (snd (setImagePublic usr i body w)) = generatedImages w
   \<and> users (snd (setImagePublic usr i body w)) = users w
   \<and> posterPurchases (snd (setImagePublic usr i body w)) = posterPurchases w
   \<and> queryCache (snd (setImagePublic usr i body w)) = queryCache w
   \<and> fst (setImagePublic usr i body w) \<noteq> SuccessJson
   \<and> (totalSupply_body body = Some n \<and> 1 \<le> n \<and> n \<le> 1000
        \<and> pricePerUnit_body body = Some p \<and> priceFloor \<le> p \<and> faults w = []
        \<and> filter (\<lambda>r. id_image r = i) (generatedImages w) = img # others
        \<and> userId img = email usr
      \<longrightarrow> setImagePublic usr i body w = (QuotaExceeded, w))"
  using over_quota_no_mutation [OF assms, of i] over_quota_response [OF assms]
  by (simp add: sameTables_def)

theorem publish_over_quota_rejected_witness:
  "setImagePublic (maker\<lparr>postersForSale := 2\<rparr>) ''m3'' (publishBody 3 50) busyWorld
     = (QuotaExceeded, busyWorld)"
  using publish_over_quota_rejected
    [where body = "publishBody 3 50" and usr = "maker\<lparr>postersForSale := 2\<rparr>" and w = busyWorld
       and i = "''m3''" and n = 3 and p = 50 and img = "draft ''m3'' ''maker@example.org''"
       and others = "[]"]
  by (simp add: publishBody_def maker_def busyWorld_def emptyWorld_def draft_def listed_def
        isSubscribed_def priceFloor_def)

text \<open>
  C6, evaluated where it fails. Three of the five editions of the poster are sold. While
  the poster is published, a request with another supply and price is refused. The
  poster is then withdrawn (the request repeats the current supply and price) and
  published again with supply 2 and price 99: this request is accepted, since the check
  is made for published images only, and the supply is now below the sold count.
\<close>

theorem supply_changed_after_sales:
  "fst (patchImagePublic (Some ''seller@example.org'') ''poster-s'' (publishBody 2 99)
          galleryWorld) = InvalidSupplyChange
   \<and> fst (patchImagePublic (Some ''seller@example.org'') ''poster-s''
            (unpublishBody (Some 5) (Some 30)) galleryWorld) = SuccessJson
   \<and> map soldCount (generatedImages withdrawnWorld) = [Some 3]
   \<and> map isPublic (generatedImages withdrawnWorld) = [False]
   \<and> fst (patchImagePublic (Some ''seller@example.org'') ''poster-s'' (publishBody 2 99)
            withdrawnWorld) = SuccessJson
   \<and> map soldCount (generatedImages relistedWorld) = [Some 3]
   \<and> map totalSupply (generatedImages relistedWorld) = [Some 2]
   \<and> map pricePerUnit (generatedImages relistedWorld) = [Some 99]"
  by (simp add: relistedWorld_def withdrawnWorld_def galleryWorld_def posterSold_def
        sellerS_def publishBody_def unpublishBody_def InvalidSupplyChange_def eval_defs)

lemma transaction_setPublicTx:
  "case transaction (setPublicTx usr i body p img) w of
     (Inl e, w2) \<Rightarrow> sameTables w2 w
   | (Inr c, w2) \<Rightarrow>
       now w2 = now w
       \<and> generatedImages w2
           = map (\<lambda>r. if id_image r = i then updateData body p r else r) (generatedImages w)
       \<and> users w2 = counterChange usr p img (now w) (users w)"
proof -
  define w0 where "w0 = w\<lparr>txLog := []\<rparr>"
  define u where "u = UpdateImages i (updateData body p)"
  define inc where
    "inc = UpdateUsers (email usr) (\<lambda>r. r\<lparr>postersForSale := postersForSale r + 1\<rparr>)"
  define dec where
    "dec = UpdateUsers (email usr) (\<lambda>r. r\<lparr>postersForSale := max 0 (postersForSale r - 1)\<rparr>)"
  obtain r1 w1 where e1: "execWrite Tx u w0 = (r1, w1)" by (cases "execWrite Tx u w0")
  obtain r2 w2 where e2: "execWrite Tx inc w1 = (r2, w2)" by (cases "execWrite Tx inc w1")
  obtain r3 w3 where e3: "execWrite Tx dec w1 = (r3, w3)" by (cases "execWrite Tx dec w1")
  have body: "setPublicTx usr i body p img w0 =
      (case r1 of
         Inl e \<Rightarrow> (Inl e, w1)
       | Inr x \<Rightarrow>
           if \<not> isSubscribed usr (now w1) then
             (if p \<and> \<not> isPublic img then (case r2 of Inl e \<Rightarrow> (Inl e, w2) | Inr x \<Rightarrow> (Inr True, w2))
              else if \<not> p \<and> isPublic img then
                (case r3 of Inl e \<Rightarrow> (Inl e, w3) | Inr x \<Rightarrow> (Inr True, w3))
              else (Inr False, w1))
           else (Inr False, w1))"
    unfolding setPublicTx_def u_def [symmetric] inc_def [symmetric] dec_def [symmetric] e1
    by (simp add: e2 e3 split: sum.splits)
  have p1: "case r1 of Inl e \<Rightarrow> w1 = w0\<lparr>faults := tl (faults w0)\<rparr>
            | Inr x \<Rightarrow> w1 = w0\<lparr>faults := tl (faults w0), txLog := txLog w0 @ [u]\<rparr>"
    using execWrite_Tx_result [where wr = u and w = w0] by (simp add: e1)
  have p2: "case r2 of Inl e \<Rightarrow> w2 = w1\<lparr>faults := tl (faults w1)\<rparr>
            | Inr x \<Rightarrow> w2 = w1\<lparr>faults := tl (faults w1), txLog := txLog w1 @ [inc]\<rparr>"
    using execWrite_Tx_result [where wr = inc and w = w1] by (simp add: e2)
  have p3: "case r3 of Inl e \<Rightarrow> w3 = w1\<lparr>faults := tl (faults w1)\<rparr>
            | Inr x \<Rightarrow> w3 = w1\<lparr>faults := tl (faults w1), txLog := txLog w1 @ [dec]\<rparr>"
    using execWrite_Tx_result [where wr = dec and w = w1] by (simp add: e3)
  have tr: "transaction (setPublicTx usr i body p img) w =
      (case setPublicTx usr i body p img w0 of
         (Inr r, w') \<Rightarrow> (Inr r, commit w') | (Inl e, w') \<Rightarrow> (Inl e, rollback w'))"
    by (simp add: transaction_def w0_def)
  show ?thesis
    unfolding tr body
    using p1 p2 p3
    by (cases r1; cases r2; cases r3)
       (simp_all add: w0_def u_def inc_def dec_def commit_def rollback_def sameTables_def
          counterChange_def)
qed


lemma setImagePublic_effect:
  "sameTables (snd (setImagePublic usr i body w)) w
   \<or> (\<exists>img others p.
         filter (\<lambda>r. id_image r = i) (generatedImages w) = img # others
         \<and> userId img = email usr
         \<and> now (snd (setImagePublic usr i body w)) = now w
         \<and> generatedImages (snd (setImagePublic usr i body w))
             = map (\<lambda>r. if id_image r = i then updateData body p r else r) (generatedImages w)
         \<and> users (snd (setImagePublic usr i body w))
             = counterChange usr p img (now w) (users w))"
proof (cases "isPublic_body body")
  case None
  then show ?thesis by (simp add: setImagePublic_def)
next
  case (Some p)
  obtain r0 w1 where s: "selectImages Db i w = (r0, w1)" by (cases "selectImages Db i w")
  have w1: "sameTables w1 w"
    using selectImages_Db_result [where i = i and w = w]
    by (cases r0) (simp_all add: s sameTables_def)
  show ?thesis
  proof (cases r0)
    case (Inl e)
    then show ?thesis using w1 Some
      by (simp add: setImagePublic_def s)
  next
    case (Inr rs)
    then have rs: "rs = filter (\<lambda>r. id_image r = i) (generatedImages w)"
      using selectImages_Db_result [where i = i and w = w] by (simp add: s)
    show ?thesis
    proof (cases rs)
      case Nil
      then show ?thesis using w1 Some Inr
        by (simp add: setImagePublic_def s)
    next
      case (Cons img others)
      obtain r2 w2 where t: "transaction (setPublicTx usr i body p img) w1 = (r2, w2)"
        by (cases "transaction (setPublicTx usr i body p img) w1")
      have eff: "case r2 of
                   Inl e \<Rightarrow> sameTables w2 w
                 | Inr c \<Rightarrow>
                     now w2 = now w
                     \<and> generatedImages w2
                         = map (\<lambda>r. if id_image r = i then updateData body p r else r)
                             (generatedImages w)
                     \<and> users w2 = counterChange usr p img (now w) (users w)"
        using transaction_setPublicTx [where usr = usr and i = i and body = body and p = p
                and img = img and w = w1] w1
        by (cases r2) (simp_all add: t sameTables_def)
      have f: "filter (\<lambda>r. id_image r = i) (generatedImages w) = img # others"
        using rs Cons by simp
      have res: "snd (setImagePublic usr i body w) = w \<or> snd (setImagePublic usr i body w) = w1
                 \<or> (userId img = email usr
                     \<and> snd (setImagePublic usr i body w)
                         = (case r2 of Inl e \<Rightarrow> w2
                            | Inr c \<Rightarrow> if c then invalidateCache (''user:'' @ email usr) w2
                                       else w2))"
        using Some Inr Cons
        by (simp add: setImagePublic_def s t split: sum.splits)
      then consider (w) "snd (setImagePublic usr i body w) = w"
        | (w1) "snd (setImagePublic usr i body w) = w1"
        | (tx) "userId img = email usr
                     \<and> snd (setImagePublic usr i body w)
                         = (case r2 of Inl e \<Rightarrow> w2
                            | Inr c \<Rightarrow> if c then invalidateCache (''user:'' @ email usr) w2
                                       else w2)"
        by blast
      then show ?thesis
      proof cases
        case w
        then show ?thesis by simp
      next
        case w1
        then show ?thesis using \<open>sameTables w1 w\<close> by simp
      next
        case tx
        have a: "userId img = email usr
                     \<and> snd (setImagePublic usr i body w)
                         = (case r2 of Inl e \<Rightarrow> w2
                            | Inr c \<Rightarrow> if c then invalidateCache (''user:'' @ email usr) w2
                                       else w2)"
          by (rule tx)
        show ?thesis
        proof (cases r2)
          case (Inl e)
          then show ?thesis using a eff by simp
        next
          case (Inr c)
          then have "now (snd (setImagePublic usr i body w)) = now w
            \<and> generatedImages (snd (setImagePublic usr i body w))
                = map (\<lambda>r. if id_image r = i then updateData body p r else r) (generatedImages w)
            \<and> users (snd (setImagePublic usr i body w))
                = counterChange usr p img (now w) (users w)"
            using a eff by (cases c) simp_all
          then show ?thesis using f a by blast
        qed
      qed
    qed
  qed
qed


lemma updateData_fields [simp]:
  "id_image (updateData body p r) = id_image r"
  "userId (updateData body p r) = userId r"
  "isPublic (updateData body p r) = p"
  by (simp_all add: updateData_def Let_def split: option.splits)

lemma count_update:
  assumes "distinct (map id_image rs)" and "img \<in> set rs" and "id_image img = i"
  shows "length (filter P (map (\<lambda>r. if id_image r = i then f r else r) rs))
           + (if P img then 1 else 0)
         = length (filter P rs) + (if P (f img) then 1 else (0::nat))"
  using assms
proof (induction rs)
  case Nil
  then show ?case by simp
next
  case (Cons r rs)
  show ?case
  proof (cases "r = img")
    case True
    have "\<forall>x \<in> set rs. id_image x \<noteq> i" using Cons.prems True by (auto simp add: image_iff)
    then have "map (\<lambda>r. if id_image r = i then f r else r) rs = rs"
      by (simp add: map_idI)
    then show ?thesis using True Cons.prems by simp
  next
    case False
    then have "img \<in> set rs" using Cons.prems by simp
    moreover have "id_image r \<noteq> i" using Cons.prems \<open>img \<in> set rs\<close> by (auto simp add: image_iff)
    ultimately show ?thesis using Cons by simp
  qed
qed

lemma isSubscribed_counter [simp]:
  "isSubscribed (u\<lparr>postersForSale := c\<rparr>) t = isSubscribed u t"
  by (simp add: isSubscribed_def)

lemma isSubscribed_later: "\<not> isSubscribed u t \<Longrightarrow> t \<le> t' \<Longrightarrow> \<not> isSubscribed u t'"
  by (auto simp add: isSubscribed_def split: option.splits)

lemma quotaInv_elapse:
  assumes "quotaInv e w" and "0 \<le> dt"
  shows "quotaInv e (elapse dt w)"
proof -
  have "\<not> isSubscribed u (now w + dt)" if "\<not> isSubscribed u (now w)" for u
    using that assms(2) isSubscribed_later [of u "now w" "now w + dt"] by simp
  then show ?thesis
    using assms(1) by (simp add: quotaInv_def elapse_def published_def)
qed

lemma quotaInv_setImagePublic:
  assumes inv: "quotaInv e w" and usr: "usr \<in> set (users w)"
  shows "quotaInv e (snd (setImagePublic usr i body w))"
proof -
  let ?w = "snd (setImagePublic usr i body w)"
  let ?P = "\<lambda>r. userId r = e \<and> isPublic r"
  from setImagePublic_effect [of usr i body w]
  consider (same) "sameTables ?w w"
    | (upd) img others p where
        "filter (\<lambda>r. id_image r = i) (generatedImages w) = img # others"
        "userId img = email usr" "now ?w = now w"
        "generatedImages ?w
           = map (\<lambda>r. if id_image r = i then updateData body p r else r) (generatedImages w)"
        "users ?w = counterChange usr p img (now w) (users w)"
    by blast
  then show ?thesis
  proof cases
    case same
    then show ?thesis using inv by (rule quotaInv_sameTables)
  next
    case upd
    have d: "distinct (map id_image (generatedImages w))" using inv by (simp add: quotaInv_def)
    have "img \<in> set (filter (\<lambda>r. id_image r = i) (generatedImages w))" using upd(1) by simp
    then have mem: "img \<in> set (generatedImages w)" and idi: "id_image img = i" by simp_all
    have cnt: "length (published e ?w) + (if ?P img then 1 else 0)
               = length (published e w) + (if ?P (updateData body p img) then 1 else 0)"
      unfolding published_def upd(4) by (rule count_update [OF d mem idi])
    have d': "distinct (map id_image (generatedImages ?w))"
    proof -
      have "map id_image (generatedImages ?w) = map id_image (generatedImages w)"
        unfolding upd(4) by (simp add: comp_def if_distrib cong: if_cong)
      then show ?thesis using d by simp
    qed
    have rows: "\<forall>u \<in> set (users ?w). email u = e \<longrightarrow>
                  \<not> isSubscribed u (now ?w) \<and> postersForSale u = int (length (published e ?w))"
    proof (cases "email usr = e")
      case False
      then have c: "length (published e ?w) = length (published e w)"
        using cnt upd(2) by simp
      have "\<forall>u \<in> set (users ?w). email u = e \<longrightarrow> u \<in> set (users w)"
        unfolding upd(5) using False by (auto simp add: counterChange_def)
      then show ?thesis using inv c upd(3) by (auto simp add: quotaInv_def)
    next
      case True
      then have ns: "\<not> isSubscribed usr (now w)"
        and cu: "postersForSale usr = int (length (published e w))"
        using inv usr by (simp_all add: quotaInv_def)
      have old: "\<forall>u \<in> set (users w). email u = e \<longrightarrow>
                  \<not> isSubscribed u (now w) \<and> postersForSale u = int (length (published e w))"
        using inv by (simp add: quotaInv_def)
      consider (up) "p" "\<not> isPublic img" | (down) "\<not> p" "isPublic img" | (none) "p = isPublic img"
        by blast
      then show ?thesis
      proof cases
        case up
        then have c: "length (published e ?w) = length (published e w) + 1"
          using cnt upd(2) True by simp
        show ?thesis
          unfolding upd(5) upd(3) c using ns up True old
          by (auto simp add: counterChange_def)
      next
        case down
        then have c: "length (published e ?w) + 1 = length (published e w)"
          using cnt upd(2) True by simp
        then have c': "int (length (published e ?w)) = int (length (published e w)) - 1"
          and pos: "1 \<le> int (length (published e w))"
          by linarith+
        show ?thesis
          unfolding upd(5) upd(3) c' using ns down True old pos
          by (auto simp add: counterChange_def)
      next
        case none
        then have c: "length (published e ?w) = length (published e w)"
          using cnt upd(2) True by simp
        show ?thesis
          unfolding upd(5) upd(3) c using ns none True old
          by (auto simp add: counterChange_def)
      qed
    qed
    show ?thesis using d' rows by (simp add: quotaInv_def)
  qed
qed

lemma quotaInv_patchImagePublic:
  assumes "quotaInv e w"
  shows "quotaInv e (snd (patchImagePublic d i body w))"
proof (cases d)
  case None
  then show ?thesis using assms by (simp add: patchImagePublic_def requireAuthentication_def)
next
  case (Some a)
  obtain r0 w1 where s: "selectUsers Db a w = (r0, w1)" by (cases "selectUsers Db a w")
  have w1: "sameTables w1 w"
    using selectUsers_Db_result [where e = a and w = w]
    by (cases r0) (simp_all add: s sameTables_def)
  then have inv1: "quotaInv e w1" using assms by (rule quotaInv_sameTables)
  show ?thesis
  proof (cases r0)
    case (Inl x)
    then show ?thesis using inv1 Some
      by (simp add: patchImagePublic_def requireAuthentication_def s)
  next
    case (Inr us)
    then have us: "us = filter (\<lambda>u. email u = a) (users w)"
      using selectUsers_Db_result [where e = a and w = w] by (simp add: s)
    show ?thesis
    proof (cases us)
      case Nil
      then show ?thesis using inv1 Some Inr
        by (simp add: patchImagePublic_def requireAuthentication_def s)
    next
      case (Cons usr rest)
      then have "usr \<in> set (filter (\<lambda>u. email u = a) (users w))" using us by simp
      then have "usr \<in> set (users w1)" using w1 by (simp add: sameTables_def)
      from quotaInv_setImagePublic [OF inv1 this, of i body]
      show ?thesis using Some Inr Cons
        by (simp add: patchImagePublic_def requireAuthentication_def s)
    qed
  qed
qed

lemma quotaInv_runCalls:
  "quotaInv e w \<Longrightarrow> \<forall>c \<in> set cs. 0 \<le> snd (snd (snd c)) \<Longrightarrow> quotaInv e (runCalls w cs)"
proof (induction cs arbitrary: w)
  case Nil
  then show ?case by simp
next
  case (Cons c cs)
  obtain a i body dt where c: "c = (a, i, body, dt)" by (cases c)
  have "quotaInv e (snd (patchImagePublic (Some a) i body (elapse dt w)))"
    using Cons.prems c by (intro quotaInv_patchImagePublic quotaInv_elapse) simp_all
  then show ?case using Cons c by simp
qed

text \<open>
  C5, as the code has it. Take a seller who is not subscribed, image ids that are
  distinct, and a world in which the seller's counter equals the number of the seller's
  published images. After any sequence of requests to the route, by any callers and at
  any later times, whatever statements fail, the seller is still not subscribed and the
  counter still equals the number of the seller's published images; it is not negative.
\<close>

theorem quota_counter_matches_published:
  assumes "distinct (map id_image (generatedImages w))"
      and "\<forall>u \<in> set (users w). email u = e \<longrightarrow>
             \<not> isSubscribed u (now w) \<and> postersForSale u = int (length (published e w))"
      and "\<forall>c \<in> set cs. 0 \<le> snd (snd (snd c))"
  shows "\<forall>u \<in> set (users (runCalls w cs)). email u = e \<longrightarrow>
           \<not> isSubscribed u (now (runCalls w cs))
           \<and> postersForSale u = int (length (published e (runCalls w cs)))
           \<and> 0 \<le> postersForSale u"
proof -
  have "quotaInv e w" using assms(1,2) by (simp add: quotaInv_def)
  then have "quotaInv e (runCalls w cs)" using assms(3) by (rule quotaInv_runCalls)
  then show ?thesis by (simp add: quotaInv_def)
qed

theorem quota_counter_matches_published_witness:
  "distinct (map id_image (generatedImages workshopWorld))
   \<and> map postersForSale (users (runCalls workshopWorld quotaCalls)) = [2]
   \<and> map id_image (published ''maker@example.org'' (runCalls workshopWorld quotaCalls))
       = [''m2'', ''m3'']
   \<and> postersForSale (hd (users (runCalls workshopWorld quotaCalls)))
       = int (length (published ''maker@example.org'' (runCalls workshopWorld quotaCalls)))
   \<and> 0 \<le> postersForSale (hd (users (runCalls workshopWorld quotaCalls)))"
proof -
  let ?R = "runCalls workshopWorld quotaCalls"
  have d: "distinct (map id_image (generatedImages workshopWorld))"
    by (simp add: workshopWorld_def draft_def)
  have run: "map postersForSale (users ?R) = [2]
     \<and> map id_image (published ''maker@example.org'' ?R) = [''m2'', ''m3'']"
    and em: "map email (users ?R) = [''maker@example.org'']"
    by (simp_all add: workshopWorld_def quotaCalls_def maker_def draft_def publishBody_def
          unpublishBody_def published_def QuotaExceeded_def eval_defs)
  from em obtain u where u: "users ?R = [u]" "email u = ''maker@example.org''"
    by (auto simp add: map_eq_Cons_conv)
  have "\<forall>u \<in> set (users ?R). email u = ''maker@example.org'' \<longrightarrow>
           \<not> isSubscribed u (now ?R)
           \<and> postersForSale u = int (length (published ''maker@example.org'' ?R))
           \<and> 0 \<le> postersForSale u"
    by (rule quota_counter_matches_published)
       (simp_all add: workshopWorld_def quotaCalls_def maker_def draft_def emptyWorld_def
          published_def isSubscribed_def)
  then have "postersForSale (hd (users ?R)) = int (length (published ''maker@example.org'' ?R))
             \<and> 0 \<le> postersForSale (hd (users ?R))"
    using u by simp
  with d run show ?thesis by simp
qed

lemmas lapse_defs =
  lapse3_def lapse2_def lapse1_def studioWorld_def artist_def draft_def publishBody_def
  unpublishBody_def exemptAt_def publicIds_def QuotaExceeded_def eval_defs

text \<open>
  C5, as stated, fails. The seller publishes poster-a while subscribed (the counter stays
  0), publishes poster-b after the subscription has lapsed (the counter becomes 1) and
  then withdraws poster-a (the counter drops to 0). The seller is not exempt at the end
  and poster-b, published while the seller was not exempt, is still published: the
  specification's count is 1, the counter is 0.
\<close>

theorem quota_counter_lapsed_subscription:
  "map postersForSale (users (runCalls studioWorld lapseCalls)) = [0]
   \<and> \<not> exemptAt ''artist@example.org'' (runCalls studioWorld lapseCalls)
   \<and> nonExemptPublications studioWorld [] lapseCalls = [''poster-b'']
   \<and> quotaCount ''artist@example.org'' (runCalls studioWorld lapseCalls)
        (nonExemptPublications studioWorld [] lapseCalls) = 1
   \<and> postersForSale (hd (users (runCalls studioWorld lapseCalls)))
       \<noteq> quotaCount ''artist@example.org'' (runCalls studioWorld lapseCalls)
            (nonExemptPublications studioWorld [] lapseCalls)"
proof -
  have run: "runCalls studioWorld lapseCalls = lapse3"
    by (simp add: lapseCalls_def lapse3_def lapse2_def lapse1_def)
  have p0: "publicIds (elapse 0 studioWorld) = []"
    and e0: "exemptAt ''artist@example.org'' (elapse 0 studioWorld)"
    by (simp_all add: lapse_defs)
  have p1: "publicIds lapse1 = [''poster-a'']"
    and p1': "publicIds (elapse 2000 lapse1) = [''poster-a'']"
    and e1: "\<not> exemptAt ''artist@example.org'' (elapse 2000 lapse1)"
    by (simp_all add: lapse_defs)
  have p2: "publicIds lapse2 = [''poster-a'', ''poster-b'']"
    and p2': "publicIds (elapse 1000 lapse2) = [''poster-a'', ''poster-b'']"
    by (simp_all add: lapse_defs)
  have p3: "publicIds lapse3 = [''poster-b'']"
    and e3: "\<not> exemptAt ''artist@example.org'' lapse3"
    and c3: "map postersForSale (users lapse3) = [0]"
    and i3: "map (\<lambda>r. (id_image r, userId r, isPublic r)) (generatedImages lapse3)
               = [(''poster-a'', ''artist@example.org'', False),
                  (''poster-b'', ''artist@example.org'', True)]"
    by (simp_all add: lapse_defs)
  have g: "nonExemptPublications studioWorld [] lapseCalls = [''poster-b'']"
    unfolding lapseCalls_def nonExemptPublications.simps Let_def
    unfolding lapse1_def [symmetric] lapse2_def [symmetric] lapse3_def [symmetric]
    by (simp add: p0 e0 p1 p1' e1 p2 p2' p3)
  have q: "quotaCount ''artist@example.org'' lapse3 [''poster-b''] = 1"
  proof -
    obtain a b where ab: "generatedImages lapse3 = [a, b]"
      and a: "id_image a = ''poster-a''" "userId a = ''artist@example.org''" "\<not> isPublic a"
      and b: "id_image b = ''poster-b''" "userId b = ''artist@example.org''" "isPublic b"
      using i3 by (auto simp add: map_eq_Cons_conv)
    show ?thesis by (simp add: quotaCount_def ab a b)
  qed
  have h: "postersForSale (hd (users lapse3)) = 0"
    using c3 by (auto simp add: map_eq_Cons_conv)
  show ?thesis using run g q e3 c3 h by simp
qed

end
